theory Spec2Isabelle
  imports Complex_Main
begin

section \<open>JavaScript numbers\<close>

text \<open>
  A JavaScript Number is an IEEE-754 double. A finite double is modelled by the real
  number it denotes, and every arithmetic operator of the source computes the exact
  result and rounds it to the nearest double, ties to the even significand (\<open>fl\<close>):
  53 significant bits, least exponent \<open>-1022\<close> (below it the spacing stays
  \<open>2 powr -1074\<close>). NaN is modelled where the source can meet it (\<open>parseFloat\<close>, an
  array read out of range) as \<open>None\<close> of an option. The infinities (a result of
  \<open>2 ^ 1024\<close> or more, a division by zero) and the sign of zero are not represented.
\<close>

definition round_half_even :: "real \<Rightarrow> int" where
  "round_half_even r =
     (let f = \<lfloor>r\<rfloor>; d = r - of_int f
      in if d < 1 / 2 then f else if 1 / 2 < d then f + 1
         else if even f then f else f + 1)"

definition dexp :: "real \<Rightarrow> int" where
  "dexp r = max \<lfloor>log 2 \<bar>r\<bar>\<rfloor> (- 1022)"

definition ulp :: "real \<Rightarrow> real" where
  "ulp r = 2 powr of_int (dexp r - 52)"

definition fl :: "real \<Rightarrow> real" where
  "fl r = (if r = 0 then 0 else of_int (round_half_even (r / ulp r)) * ulp r)"

definition js_add :: "real \<Rightarrow> real \<Rightarrow> real" where
  "js_add a b = fl (a + b)"

definition js_sub :: "real \<Rightarrow> real \<Rightarrow> real" where
  "js_sub a b = fl (a - b)"

definition js_mul :: "real \<Rightarrow> real \<Rightarrow> real" where
  "js_mul a b = fl (a * b)"

definition js_div :: "real \<Rightarrow> real \<Rightarrow> real" where
  "js_div a b = fl (a / b)"

text \<open>
  \<open>Math.round\<close> returns the nearest integer, a tie going up; the result is a double
  whenever the argument is, so nothing is rounded a second time.
\<close>

definition Math_round :: "real \<Rightarrow> real" where
  "Math_round r = of_int \<lfloor>r + 1 / 2\<rfloor>"

text \<open>The literal \<open>1e-6\<close> of the source is the double nearest to \<open>1 / 10 ^ 6\<close>.\<close>

definition lit_1e_6 :: real where
  "lit_1e_6 = fl (1 / 1000000)"

section \<open>Crop box clamping\<close>

record box =
  box_x :: real
  box_y :: real
  box_w :: real
  box_h :: real

text \<open>
  \<open>clampCanvasBox\<close>, with \<open>canvas.width\<close> and \<open>canvas.height\<close> (unsigned integers of
  the canvas element) as arguments. The two differences are differences of integers
  below \<open>2 ^ 53\<close> and are exact.
\<close>

definition clampCanvasBox :: "nat \<Rightarrow> nat \<Rightarrow> box \<Rightarrow> box" where
  "clampCanvasBox cw ch b =
     (let x = max 0 (min (real cw) (Math_round (box_x b)));
          y = max 0 (min (real ch) (Math_round (box_y b)));
          w = max 0 (min (real cw - x) (Math_round (box_w b)));
          h = max 0 (min (real ch - y) (Math_round (box_h b)))
      in \<lparr>box_x = x, box_y = y, box_w = w, box_h = h\<rparr>)"


section \<open>Application state\<close>

type_synonym point = "real \<times> real"

text \<open>
  The arrow function stored in \<open>affine\<close> (line 187) is kept as the values of the
  variables it closes over; \<open>apply_affine\<close> is its body.
\<close>

record affine_closure =
  c_vmin :: real
  c_yb :: real
  c_pixelRange :: real
  c_dataRange :: real

definition apply_affine :: "affine_closure \<Rightarrow> real \<Rightarrow> real \<Rightarrow> real" where
  "apply_affine c x y =
     js_add (c_vmin c) (js_mul (js_div (js_sub (c_yb c) y) (c_pixelRange c)) (c_dataRange c))"

text \<open>
  An image is a decoded upload (its data URL and natural size) or the PNG made from a
  region \<open>sx sy sw sh\<close> of another image, whose natural size is \<open>sw\<close> by \<open>sh\<close>.
\<close>

datatype image =
  Decoded string nat nat
| Cropped image real real nat nat

fun naturalWidth :: "image \<Rightarrow> nat" where
  "naturalWidth (Decoded src w h) = w"
| "naturalWidth (Cropped im sx sy sw sh) = sw"

fun naturalHeight :: "image \<Rightarrow> nat" where
  "naturalHeight (Decoded src w h) = h"
| "naturalHeight (Cropped im sx sy sw sh) = sh"

text \<open>One row of the results table, before \<open>toFixed(2)\<close> formats its two numbers.\<close>

record row =
  monthName :: "string option"
  axisVal :: real
  finalVal :: "real option"

record crop_start =
  cs_cssX :: real
  cs_cssY :: real
  cs_cx :: real
  cs_cy :: real

record dom_rect =
  rect_left :: real
  rect_top :: real
  rect_width :: real
  rect_height :: real

text \<open>
  The module-level variables (lines 29 to 40) and the parts of the page the handlers
  read or write: the size of the canvas, the two bound fields as \<open>parseFloat\<close> reads
  them (\<open>None\<close> is NaN), the two selections, the inline style of the crop rectangle
  (lengths as the numbers \<open>parseFloat\<close> reads back), the results table (\<open>None\<close> is the
  empty table, \<open>Some rows\<close> the header followed by the rows) and the annual label
  (\<open>None\<close> is the empty label, \<open>Some t\<close> the total \<open>t\<close>, itself NaN when \<open>None\<close>).
  Texts and visibility of the other controls are not modelled.
\<close>

record app_state =
  origImg :: "image option"
  origW :: nat
  origH :: nat
  img :: "image option"
  calib :: "point list"
  monthPts :: "point list"
  affine :: "affine_closure option"
  mode :: "string option"
  startIdx :: "int option"
  cropStart :: "crop_start option"
  isCropping :: bool
  isDragging :: bool
  dragOffset :: "(real \<times> real) option"
  cropBox :: box
  canvas_width :: nat
  canvas_height :: nat
  yminEl_number :: "real option"
  ymaxEl_number :: "real option"
  modeEl_value :: string
  startEl_value :: string
  cropRect_display :: string
  cropRect_left :: real
  cropRect_top :: real
  cropRect_width :: real
  cropRect_height :: real
  resultsTable :: "row list option"
  annualLabel :: "real option option"

definition zero_box :: box where
  "zero_box = \<lparr>box_x = 0, box_y = 0, box_w = 0, box_h = 0\<rparr>"

text \<open>The state when the script has run, for a page with the given canvas and fields.\<close>

definition initial_state ::
  "nat \<Rightarrow> nat \<Rightarrow> real option \<Rightarrow> real option \<Rightarrow> string \<Rightarrow> string \<Rightarrow> string \<Rightarrow> app_state" where
  "initial_state cw ch ymin ymax modeV startV disp =
     \<lparr>origImg = None, origW = 0, origH = 0, img = None,
      calib = [], monthPts = [], affine = None, mode = None, startIdx = None,
      cropStart = None, isCropping = False, isDragging = False, dragOffset = None,
      cropBox = zero_box, canvas_width = cw, canvas_height = ch,
      yminEl_number = ymin, ymaxEl_number = ymax,
      modeEl_value = modeV, startEl_value = startV,
      cropRect_display = disp, cropRect_left = 0, cropRect_top = 0,
      cropRect_width = 0, cropRect_height = 0,
      resultsTable = None, annualLabel = None\<rparr>"

datatype error =
  MissingCalibPoints
| InvalidInput
| InvalidCalibration
| EmptyCrop

section \<open>Coordinates\<close>

record canvas_point =
  p_cx :: real
  p_cy :: real
  p_cssX :: real
  p_cssY :: real
  p_scaleX :: real
  p_scaleY :: real

text \<open>
  \<open>getCanvasPointFromClient\<close>; the rectangle is what \<open>getBoundingClientRect\<close> returns
  at the time of the event, of positive width and height for a canvas that is laid out.
\<close>

definition getCanvasPointFromClient ::
  "app_state \<Rightarrow> dom_rect \<Rightarrow> real \<Rightarrow> real \<Rightarrow> canvas_point" where
  "getCanvasPointFromClient s rect clientX clientY =
     (let cssX = js_sub clientX (rect_left rect);
          cssY = js_sub clientY (rect_top rect);
          scaleX = js_div (real (canvas_width s)) (rect_width rect);
          scaleY = js_div (real (canvas_height s)) (rect_height rect)
      in \<lparr>p_cx = js_mul cssX scaleX, p_cy = js_mul cssY scaleY,
          p_cssX = cssX, p_cssY = cssY, p_scaleX = scaleX, p_scaleY = scaleY\<rparr>)"

section \<open>Extraction\<close>

definition daysInMonth :: "real list" where
  "daysInMonth = [31, 28, 31, 30, 31, 30, 31, 31, 30, 31, 30, 31]"

definition calendarNames :: "string list" where
  "calendarNames = [''Jan'', ''Feb'', ''Mar'', ''Apr'', ''May'', ''Jun'',
                    ''Jul'', ''Aug'', ''Sep'', ''Oct'', ''Nov'', ''Dec'']"

text \<open>\<open>Array.prototype.indexOf\<close>: the first position of the value, \<open>-1\<close> when absent.\<close>

fun indexOf :: "'a list \<Rightarrow> 'a \<Rightarrow> int" where
  "indexOf [] v = - 1"
| "indexOf (x # xs) v =
     (if x = v then 0 else (let k = indexOf xs v in if k < 0 then - 1 else k + 1))"

text \<open>The operator \<open>%\<close> on integers: the sign of the result is the sign of the dividend.\<close>

definition js_rem :: "int \<Rightarrow> int \<Rightarrow> int" where
  "js_rem a b = sgn a * (\<bar>a\<bar> mod \<bar>b\<bar>)"

text \<open>
  \<open>(startIdx + i) % 12\<close>; \<open>startIdx\<close> is \<open>undefined\<close> until a calibration is set,
  and the index is then NaN.
\<close>

definition month_index :: "int option \<Rightarrow> nat \<Rightarrow> int option" where
  "month_index st i = map_option (\<lambda>k. js_rem (k + int i) 12) st"

text \<open>An array read: \<open>undefined\<close> unless the index is a position of the array.\<close>

definition js_index :: "'a list \<Rightarrow> int option \<Rightarrow> 'a option" where
  "js_index xs idx =
     (case idx of None \<Rightarrow> None
      | Some k \<Rightarrow> if 0 \<le> k \<and> k < int (length xs) then Some (xs ! nat k) else None)"

text \<open>Addition and multiplication where an operand may be NaN or \<open>undefined\<close>.\<close>

definition nan_add :: "real option \<Rightarrow> real option \<Rightarrow> real option" where
  "nan_add a b = (case (a, b) of (Some u, Some v) \<Rightarrow> Some (js_add u v) | _ \<Rightarrow> None)"

definition nan_mul :: "real \<Rightarrow> real option \<Rightarrow> real option" where
  "nan_mul a b = (case b of Some v \<Rightarrow> Some (js_mul a v) | None \<Rightarrow> None)"

text \<open>The body of the loop of \<open>computeResults\<close> at index \<open>i\<close>: the row it appends.\<close>

definition result_row :: "app_state \<Rightarrow> affine_closure \<Rightarrow> nat \<Rightarrow> row" where
  "result_row s c i =
     (let (x, y) = monthPts s ! i;
          a = apply_affine c x y;
          idx = month_index (startIdx s) i
      in \<lparr>monthName = js_index calendarNames idx,
          axisVal = a,
          finalVal = (if mode s = Some ''Daily average''
                      then nan_mul a (js_index daysInMonth idx) else Some a)\<rparr>)"

definition result_step ::
  "app_state \<Rightarrow> affine_closure \<Rightarrow> row list \<times> real option \<Rightarrow> nat \<Rightarrow> row list \<times> real option" where
  "result_step s c acc i =
     (let r = result_row s c i in (fst acc @ [r], nan_add (snd acc) (finalVal r)))"

definition computeResults :: "app_state \<Rightarrow> app_state" where
  "computeResults s =
     (case affine s of
        None \<Rightarrow> s
      | Some c \<Rightarrow>
          if length (monthPts s) < 12 then s
          else (let (rows, total) = foldl (result_step s c) ([], Some 0) [0..<12]
                in s\<lparr>resultsTable := Some rows, annualLabel := Some total\<rparr>))"

section \<open>Handlers\<close>

text \<open>
  \<open>upload.onchange\<close>: nothing without a file; with one, the state once the file is
  read and decoded.
\<close>

definition upload_onchange :: "app_state \<Rightarrow> image option \<Rightarrow> app_state" where
  "upload_onchange s file =
     (case file of
        None \<Rightarrow> s
      | Some loaded \<Rightarrow>
          s\<lparr>origImg := Some loaded,
            origW := naturalWidth loaded, origH := naturalHeight loaded,
            img := Some loaded,
            calib := [], monthPts := [], affine := None,
            resultsTable := None, annualLabel := None,
            cropRect_display := ''none''\<rparr>)"

definition reset_onclick :: "app_state \<Rightarrow> app_state" where
  "reset_onclick s =
     s\<lparr>calib := [], monthPts := [], affine := None,
       resultsTable := None, annualLabel := None,
       cropRect_display := ''none'',
       isCropping := False, cropBox := zero_box,
       cropStart := None, isDragging := False, dragOffset := None\<rparr>"

definition undo_onclick :: "app_state \<Rightarrow> app_state" where
  "undo_onclick s =
     (if length (monthPts s) > 0 then s\<lparr>monthPts := butlast (monthPts s)\<rparr> else s)"

text \<open>
  The click listener of the canvas: line 161 ignores the click while a crop is being
  drawn or shown; otherwise lines 164 to 173 store the point (\<open>addPoint\<close>).
\<close>

definition click_ignored :: "app_state \<Rightarrow> bool" where
  "click_ignored s =
     (isCropping s \<and> (cropStart s \<noteq> None \<or> cropRect_display s = ''block''))"

definition addPoint :: "app_state \<Rightarrow> point \<Rightarrow> app_state" where
  "addPoint s p =
     (if length (calib s) < 2 then s\<lparr>calib := calib s @ [p]\<rparr>
      else if affine s \<noteq> None \<and> length (monthPts s) < 12 then
        (let s' = s\<lparr>monthPts := monthPts s @ [p]\<rparr>
         in if length (monthPts s') = 12 then computeResults s' else s')
      else s)"

definition canvas_click :: "app_state \<Rightarrow> dom_rect \<Rightarrow> real \<Rightarrow> real \<Rightarrow> app_state" where
  "canvas_click s rect clientX clientY =
     (if click_ignored s then s
      else (let pt = getCanvasPointFromClient s rect clientX clientY
            in addPoint s (p_cx pt, p_cy pt)))"

text \<open>
  \<open>setCalibBtn.onclick\<close>. Each alert is an error and leaves by \<open>return\<close>:
  \<open>MissingCalibPoints\<close> for line 180, \<open>InvalidInput\<close> for line 183,
  \<open>InvalidCalibration\<close> for line 185.
\<close>

definition setCalib_onclick :: "app_state \<Rightarrow> error + app_state" where
  "setCalib_onclick s =
     (case calib s of
        (xb, yb) # (xt, yt) # rest \<Rightarrow>
          (case (yminEl_number s, ymaxEl_number s) of
             (Some vmin, Some vmax) \<Rightarrow>
               (let pixelRange = js_sub yb yt in
                if \<bar>pixelRange\<bar> < lit_1e_6 then Inl InvalidCalibration
                else (let dataRange = js_sub vmax vmin in
                  Inr (s\<lparr>affine := Some \<lparr>c_vmin = vmin, c_yb = yb,
                                         c_pixelRange = pixelRange, c_dataRange = dataRange\<rparr>,
                         mode := Some (modeEl_value s),
                         startIdx := Some (indexOf calendarNames (startEl_value s))\<rparr>)))
           | _ \<Rightarrow> Inl InvalidInput)
      | _ \<Rightarrow> Inl MissingCalibPoints)"

section \<open>Crop\<close>

definition cropToggle_onclick :: "app_state \<Rightarrow> app_state" where
  "cropToggle_onclick s =
     (let on = \<not> isCropping s
      in s\<lparr>isCropping := on,
           cropRect_display := (if on then ''block'' else ''none''),
           cropBox := zero_box,
           cropStart := None, isDragging := False, dragOffset := None\<rparr>)"

definition canvas_mousedown :: "app_state \<Rightarrow> dom_rect \<Rightarrow> real \<Rightarrow> real \<Rightarrow> app_state" where
  "canvas_mousedown s rect clientX clientY =
     (if \<not> isCropping s then s
      else (let pt = getCanvasPointFromClient s rect clientX clientY;
                cssX = p_cssX pt; cssY = p_cssY pt;
                cssLeft = cropRect_left s; cssTop = cropRect_top s;
                cssW = cropRect_width s; cssH = cropRect_height s;
                inside = (cssW > 0 \<and> cssH > 0 \<and>
                          cssX \<ge> cssLeft \<and> cssX \<le> js_add cssLeft cssW \<and>
                          cssY \<ge> cssTop \<and> cssY \<le> js_add cssTop cssH)
            in if inside then
                 s\<lparr>isDragging := True,
                   dragOffset := Some (js_sub cssX cssLeft, js_sub cssY cssTop)\<rparr>
               else
                 s\<lparr>cropStart := Some \<lparr>cs_cssX = cssX, cs_cssY = cssY,
                                       cs_cx = p_cx pt, cs_cy = p_cy pt\<rparr>,
                   cropBox := \<lparr>box_x = p_cx pt, box_y = p_cy pt, box_w = 0, box_h = 0\<rparr>,
                   cropRect_display := ''block'',
                   cropRect_left := cssX, cropRect_top := cssY,
                   cropRect_width := 0, cropRect_height := 0\<rparr>))"

text \<open>
  While dragging, the handler reads \<open>dragOffset.cssDx\<close> first: with \<open>dragOffset\<close> null
  that read throws and the handler has changed nothing.
\<close>

definition canvas_mousemove :: "app_state \<Rightarrow> dom_rect \<Rightarrow> real \<Rightarrow> real \<Rightarrow> app_state" where
  "canvas_mousemove s rect clientX clientY =
     (if \<not> isCropping s then s
      else (let pt = getCanvasPointFromClient s rect clientX clientY;
                cssX = p_cssX pt; cssY = p_cssY pt
            in if isDragging s then
                 (case dragOffset s of
                    None \<Rightarrow> s
                  | Some (cssDx, cssDy) \<Rightarrow>
                      (let newCssLeft = js_sub cssX cssDx;
                           newCssTop = js_sub cssY cssDy;
                           cssMaxLeft = rect_width rect;
                           cssMaxTop = rect_height rect;
                           rectW = cropRect_width s;
                           rectH = cropRect_height s;
                           clampedLeft = max 0 (min newCssLeft (js_sub cssMaxLeft rectW));
                           clampedTop = max 0 (min newCssTop (js_sub cssMaxTop rectH));
                           scaleX = js_div (real (canvas_width s)) (rect_width rect);
                           scaleY = js_div (real (canvas_height s)) (rect_height rect)
                       in s\<lparr>cropRect_left := clampedLeft, cropRect_top := clampedTop,
                            cropBox := (cropBox s)\<lparr>box_x := Math_round (js_mul clampedLeft scaleX),
                                                   box_y := Math_round (js_mul clampedTop scaleY)\<rparr>\<rparr>))
               else
                 (case cropStart s of
                    None \<Rightarrow> s
                  | Some start \<Rightarrow>
                      (let leftCss = min (cs_cssX start) cssX;
                           topCss = min (cs_cssY start) cssY;
                           widthCss = \<bar>js_sub cssX (cs_cssX start)\<bar>;
                           heightCss = \<bar>js_sub cssY (cs_cssY start)\<bar>;
                           scaleX = js_div (real (canvas_width s)) (rect_width rect);
                           scaleY = js_div (real (canvas_height s)) (rect_height rect)
                       in s\<lparr>cropRect_left := leftCss, cropRect_top := topCss,
                            cropRect_width := widthCss, cropRect_height := heightCss,
                            cropBox := \<lparr>box_x = Math_round (js_mul leftCss scaleX),
                                        box_y = Math_round (js_mul topCss scaleY),
                                        box_w = Math_round (js_mul widthCss scaleX),
                                        box_h = Math_round (js_mul heightCss scaleY)\<rparr>\<rparr>))))"

definition canvas_mouseup :: "app_state \<Rightarrow> dom_rect \<Rightarrow> app_state" where
  "canvas_mouseup s rect =
     (if \<not> isCropping s then s
      else (let cb = clampCanvasBox (canvas_width s) (canvas_height s) (cropBox s);
                kx = js_div (rect_width rect) (real (canvas_width s));
                ky = js_div (rect_height rect) (real (canvas_height s))
            in s\<lparr>isDragging := False, cropStart := None, cropBox := cb,
                 cropRect_left := js_mul (box_x cb) kx,
                 cropRect_top := js_mul (box_y cb) ky,
                 cropRect_width := js_mul (box_w cb) kx,
                 cropRect_height := js_mul (box_h cb) ky\<rparr>))"

definition canvas_mouseleave :: "app_state \<Rightarrow> app_state" where
  "canvas_mouseleave s =
     (if \<not> isCropping s then s else s\<lparr>isDragging := False, cropStart := None\<rparr>)"

record pending_crop =
  pc_newImage :: image
  pc_sw :: nat
  pc_sh :: nat

text \<open>
  Lines 327 to 330: the clamped crop box \<open>cb\<close> in the pixels of the original image.
\<close>

definition cropSourceBox :: "app_state \<Rightarrow> box \<Rightarrow> box" where
  "cropSourceBox s cb =
     (let kx = js_div (real (origW s)) (real (canvas_width s));
          ky = js_div (real (origH s)) (real (canvas_height s))
      in \<lparr>box_x = Math_round (js_mul (box_x cb) kx),
          box_y = Math_round (js_mul (box_y cb) ky),
          box_w = Math_round (js_mul (box_w cb) kx),
          box_h = Math_round (js_mul (box_h cb) ky)\<rparr>)"

text \<open>
  \<open>applyCropBtn.onclick\<close> ends in one of four ways: it returns at line 321 having done
  nothing (\<open>Inr None\<close>), it alerts at line 323 or at line 332 (\<open>Inl EmptyCrop\<close>), or it
  starts loading the image cut from \<open>origImg\<close> (\<open>Inr (Some p)\<close>, where \<open>p\<close> holds what
  the \<open>onload\<close> callback closes over). \<open>sw\<close> and \<open>sh\<close> are then positive integers.
\<close>

definition applyCrop_onclick :: "app_state \<Rightarrow> error + pending_crop option" where
  "applyCrop_onclick s =
     (case origImg s of
        None \<Rightarrow> Inr None
      | Some orig \<Rightarrow>
          if cropRect_display s = ''none'' then Inr None
          else (let cb = clampCanvasBox (canvas_width s) (canvas_height s) (cropBox s) in
            if box_w cb \<le> 0 \<or> box_h cb \<le> 0 then Inl EmptyCrop
            else (let src = cropSourceBox s cb;
                      sw = box_w src; sh = box_h src
                  in if sw \<le> 0 \<or> sh \<le> 0 then Inl EmptyCrop
                     else Inr (Some \<lparr>pc_newImage =
                                        Cropped orig (box_x src) (box_y src)
                                          (nat \<lfloor>sw\<rfloor>) (nat \<lfloor>sh\<rfloor>),
                                      pc_sw = nat \<lfloor>sw\<rfloor>, pc_sh = nat \<lfloor>sh\<rfloor>\<rparr>))))"

definition newImage_onload :: "pending_crop \<Rightarrow> app_state \<Rightarrow> app_state" where
  "newImage_onload p s =
     s\<lparr>origImg := Some (pc_newImage p),
       origW := naturalWidth (pc_newImage p), origH := naturalHeight (pc_newImage p),
       img := Some (pc_newImage p),
       canvas_width := pc_sw p, canvas_height := pc_sh p,
       cropRect_display := ''none'', isCropping := False,
       calib := [], monthPts := [], affine := None,
       resultsTable := None, annualLabel := None\<rparr>"

text \<open>Applying a crop when the cut image loads before any other event.\<close>

definition applyCrop :: "app_state \<Rightarrow> error + app_state" where
  "applyCrop s =
     (case applyCrop_onclick s of
        Inl e \<Rightarrow> Inl e
      | Inr None \<Rightarrow> Inr s
      | Inr (Some p) \<Rightarrow> Inr (newImage_onload p s))"

section \<open>Events\<close>

text \<open>
  Everything that changes the state: the handlers above, the user editing one of the
  two bound fields or choosing in one of the two selections, and a cut image finishing
  to load at any later time. A handler that alerts leaves the state as it was.
\<close>

datatype event =
  Upload "image option"
| Reset
| Undo
| Click dom_rect real real
| SetCalib
| CropToggle
| MouseDown dom_rect real real
| MouseMove dom_rect real real
| MouseUp dom_rect
| MouseLeave
| ApplyCrop
| CropLoaded pending_crop
| YminInput "real option"
| YmaxInput "real option"
| ModeSelect string
| StartSelect string

fun step :: "app_state \<Rightarrow> event \<Rightarrow> app_state" where
  "step s (Upload file) = upload_onchange s file"
| "step s Reset = reset_onclick s"
| "step s Undo = undo_onclick s"
| "step s (Click rect x y) = canvas_click s rect x y"
| "step s SetCalib = (case setCalib_onclick s of Inl e \<Rightarrow> s | Inr s' \<Rightarrow> s')"
| "step s CropToggle = cropToggle_onclick s"
| "step s (MouseDown rect x y) = canvas_mousedown s rect x y"
| "step s (MouseMove rect x y) = canvas_mousemove s rect x y"
| "step s (MouseUp rect) = canvas_mouseup s rect"
| "step s MouseLeave = canvas_mouseleave s"
| "step s ApplyCrop = (case applyCrop s of Inl e \<Rightarrow> s | Inr s' \<Rightarrow> s')"
| "step s (CropLoaded p) = newImage_onload p s"
| "step s (YminInput v) = s\<lparr>yminEl_number := v\<rparr>"
| "step s (YmaxInput v) = s\<lparr>ymaxEl_number := v\<rparr>"
| "step s (ModeSelect v) = s\<lparr>modeEl_value := v\<rparr>"
| "step s (StartSelect v) = s\<lparr>startEl_value := v\<rparr>"

definition run :: "app_state \<Rightarrow> event list \<Rightarrow> app_state" where
  "run s evs = foldl step s evs"

section \<open>Example states\<close>

text \<open>
  A page with a canvas of 800 by 600, the bound fields holding 0 and 1000; the same
  with two calibration points at \<open>y = 500\<close> and \<open>y = 100\<close>; and the same once the
  calibration is set.
\<close>

definition example_page :: app_state where
  "example_page = initial_state 800 600 (Some 0) (Some 1000) ''Total'' ''Jan'' ''none''"

definition example_two_points :: app_state where
  "example_two_points = example_page\<lparr>calib := [(100, 500), (120, 100)]\<rparr>"

definition example_closure :: affine_closure where
  "example_closure = \<lparr>c_vmin = 0, c_yb = 500, c_pixelRange = 400, c_dataRange = 1000\<rparr>"

definition example_calibrated :: app_state where
  "example_calibrated =
     example_two_points\<lparr>affine := Some example_closure,
                         mode := Some ''Total'', startIdx := Some 0\<rparr>"

text \<open>The ranges in which a real number is a finite double, and rounds to one.\<close>

definition representable :: "real \<Rightarrow> bool" where
  "representable r \<longleftrightarrow> fl r = r \<and> \<bar>r\<bar> < 2 ^ 1024"

definition in_range :: "real \<Rightarrow> bool" where
  "in_range r \<longleftrightarrow> \<bar>r\<bar> < 2 ^ 1024 - 2 ^ 970"

text \<open>
  The calibrated page with its two calibration points at the same height, and the same
  with the lower bound field holding no number.
\<close>

definition example_close_points :: app_state where
  "example_close_points = example_calibrated\<lparr>calib := [(100, 500), (120, 500)]\<rparr>"

definition example_close_no_bound :: app_state where
  "example_close_no_bound = example_close_points\<lparr>yminEl_number := None\<rparr>"

text \<open>The calibrated page with eleven month points.\<close>

definition example_eleven :: app_state where
  "example_eleven = example_calibrated\<lparr>monthPts := replicate 11 (50, 300)\<rparr>"

definition example_rect :: dom_rect where
  "example_rect = \<lparr>rect_left = 0, rect_top = 0, rect_width = 800, rect_height = 600\<rparr>"

text \<open>A stored map goes with two calibration points.\<close>

definition calib_inv :: "app_state \<Rightarrow> bool" where
  "calib_inv s \<longleftrightarrow> affine s = None \<or> 2 \<le> length (calib s)"

text \<open>
  The page after the user has switched the crop mode on and dragged a box from
  \<open>(10, 10)\<close> to \<open>(60, 60)\<close>, no image being loaded; and the same page holding an
  uploaded image of 1600 by 1200.
\<close>

definition example_crop_no_image :: app_state where
  "example_crop_no_image =
     example_page\<lparr>isCropping := True, cropRect_display := ''block'',
                  cropBox := \<lparr>box_x = 10, box_y = 10, box_w = 50, box_h = 50\<rparr>,
                  cropRect_left := 10, cropRect_top := 10,
                  cropRect_width := 50, cropRect_height := 50\<rparr>"

definition example_image :: image where
  "example_image = Decoded ''data:image/png;base64,'' 1600 1200"

definition example_crop_image :: app_state where
  "example_crop_image =
     example_crop_no_image\<lparr>origImg := Some example_image, origW := 1600, origH := 1200,
                            img := Some example_image\<rparr>"

text \<open>
  The calibrated page in the daily-average mode starting in March, with twelve month
  points at \<open>y = 300\<close>.
\<close>

definition example_twelve :: app_state where
  "example_twelve =
     example_calibrated\<lparr>mode := Some ''Daily average'', startIdx := Some 2,
                         monthPts := replicate 12 (50, 300)\<rparr>"

text \<open>Choosing in one of the two selections, and a state with both selections blanked.\<close>

fun is_select :: "event \<Rightarrow> bool" where
  "is_select (ModeSelect v) = True"
| "is_select (StartSelect v) = True"
| "is_select e = False"

definition forget_selects :: "app_state \<Rightarrow> app_state" where
  "forget_selects s = s\<lparr>modeEl_value := [], startEl_value := []\<rparr>"

text \<open>The page holding the image, in crop mode, before any box is dragged.\<close>

definition example_crop_empty :: app_state where
  "example_crop_empty = example_crop_image\<lparr>cropBox := zero_box\<rparr>"

text \<open>The calibrated page with the crop mode switched on.\<close>

definition example_crop_calibrated :: app_state where
  "example_crop_calibrated =
     example_calibrated\<lparr>isCropping := True, cropRect_display := ''block''\<rparr>"

text \<open>
  C8: \<open>clampCanvasBox\<close> rounds each field and clamps \<open>x\<close> into \<open>[0, width]\<close>, \<open>y\<close> into
  \<open>[0, height]\<close>, \<open>w\<close> into \<open>[0, width - x]\<close> and \<open>h\<close> into \<open>[0, height - y]\<close>, so the
  box it returns lies inside the raster: \<open>0 \<le> x\<close>, \<open>0 \<le> y\<close>, \<open>x + w \<le> width\<close> and
  \<open>y + h \<le> height\<close>.
\<close>

theorem clampCanvasBox_contained:
  "(let c = clampCanvasBox cw ch b in
      box_x c = max 0 (min (real cw) (Math_round (box_x b))) \<and>
      box_y c = max 0 (min (real ch) (Math_round (box_y b))) \<and>
      box_w c = max 0 (min (real cw - box_x c) (Math_round (box_w b))) \<and>
      box_h c = max 0 (min (real ch - box_y c) (Math_round (box_h b))) \<and>
      0 \<le> box_x c \<and> box_x c \<le> real cw \<and>
      0 \<le> box_y c \<and> box_y c \<le> real ch \<and>
      0 \<le> box_w c \<and> box_w c \<le> real cw - box_x c \<and>
      0 \<le> box_h c \<and> box_h c \<le> real ch - box_y c \<and>
      box_x c + box_w c \<le> real cw \<and>
      box_y c + box_h c \<le> real ch)"
  unfolding clampCanvasBox_def Let_def by (simp add: max_def min_def)

section \<open>Rounding to a double\<close>

lemma round_half_even_of_int: "round_half_even (of_int n) = n"
  by (simp add: round_half_even_def)

lemma two_powr_int: "(2::real) powr of_int k = (if 0 \<le> k then 2 ^ nat k else 1 / 2 ^ nat (- k))"
  by (simp add: powr_int field_simps)

lemma dexp_ge: "- 1022 \<le> dexp r"
  by (simp add: dexp_def)

lemma abs_less_ulp_range:
  assumes "r \<noteq> 0"
  shows "\<bar>r\<bar> < 2 powr of_int (dexp r + 1)"
proof -
  have "\<lfloor>log 2 \<bar>r\<bar>\<rfloor> \<le> dexp r" by (simp add: dexp_def)
  then have "log 2 \<bar>r\<bar> < of_int (dexp r + 1)" by linarith
  then show ?thesis using assms by (simp add: log_less_iff)
qed

lemma dexp_upper:
  assumes "r \<noteq> 0" and "\<bar>r\<bar> < 2 powr of_int (j + 1)" and "- 1022 \<le> j"
  shows "dexp r \<le> j"
proof -
  have "log 2 \<bar>r\<bar> < of_int (j + 1)" using assms by (simp add: log_less_iff)
  then have "\<lfloor>log 2 \<bar>r\<bar>\<rfloor> \<le> j" by linarith
  then show ?thesis using assms by (simp add: dexp_def)
qed

lemma fl_exact:
  assumes m: "\<bar>m\<bar> < 2 ^ 53" and k: "- 1074 \<le> k"
  shows "fl (of_int m * 2 powr of_int k) = of_int m * 2 powr of_int k"
proof (cases "m = 0")
  case True
  then show ?thesis by (simp add: fl_def)
next
  case False
  define r :: real where "r = of_int m * 2 powr of_int k"
  have r0: "r \<noteq> 0" using False by (simp add: r_def)
  have "\<bar>r\<bar> = of_int \<bar>m\<bar> * 2 powr of_int k" by (simp add: r_def abs_mult)
  also have "\<dots> < 2 ^ 53 * 2 powr of_int k"
  proof -
    have "(of_int \<bar>m\<bar> :: real) < of_int (2 ^ 53)" using m by (simp only: of_int_less_iff)
    then show ?thesis by simp
  qed
  also have "\<dots> = 2 powr of_int (52 + k + 1)"
    by (simp add: powr_add powr_realpow[symmetric] del: powr_numeral)
  finally have "dexp r \<le> 52 + k" using r0 k by (intro dexp_upper) auto
  then obtain d :: nat where d: "k = dexp r - 52 + int d"
    by (metis add.commute diff_le_eq zle_iff_zadd)
  have "r / ulp r = of_int m * (2 powr of_int k / 2 powr of_int (dexp r - 52))"
    by (simp add: r_def ulp_def)
  also have "2 powr of_int k / 2 powr of_int (dexp r - 52) = (2::real) powr (of_int k - of_int (dexp r - 52))"
    by (simp only: powr_diff)
  also have "of_int k - of_int (dexp r - 52) = real d" using d by simp
  also have "(2::real) powr real d = 2 ^ d" by (simp add: powr_realpow)
  finally have "r / ulp r = of_int (m * 2 ^ d)" by simp
  then have "round_half_even (r / ulp r) = m * 2 ^ d"
    by (simp only: round_half_even_of_int)
  then have "fl r = of_int (m * 2 ^ d) * ulp r" using r0 by (simp add: fl_def)
  also have "\<dots> = of_int m * (2 ^ d * 2 powr of_int (dexp r - 52))" by (simp add: ulp_def)
  also have "2 ^ d * 2 powr of_int (dexp r - 52) = (2::real) powr (real d + of_int (dexp r - 52))"
    by (simp only: powr_add powr_realpow[symmetric, of 2 d, simplified])
  also have "real d + of_int (dexp r - 52) = of_int k" using d by simp
  finally show ?thesis by (simp add: r_def)
qed


lemma fl_of_int: "\<bar>n\<bar> < 2 ^ 53 \<Longrightarrow> fl (of_int n) = of_int n"
  using fl_exact[of n 0] by simp

lemma fl_numeral: "(numeral w :: int) < 2 ^ 53 \<Longrightarrow> fl (numeral w) = numeral w"
  using fl_of_int[of "numeral w"] by simp

lemma fl_0: "fl 0 = 0" by (simp add: fl_def)

lemma fl_1: "fl 1 = 1" using fl_of_int[of 1] by simp

lemma fl_eval:
  assumes "r \<noteq> 0" and "2 powr of_int e \<le> \<bar>r\<bar>" and "\<bar>r\<bar> < 2 powr of_int (e + 1)"
    and "- 1022 \<le> e"
  shows "fl r = of_int (round_half_even (r / 2 powr of_int (e - 52))) * 2 powr of_int (e - 52)"
proof -
  have "\<lfloor>log 2 \<bar>r\<bar>\<rfloor> = e"
    using assms by (subst floor_log_eq_powr_iff) auto
  then have "dexp r = e" using assms by (simp add: dexp_def)
  then show ?thesis using assms by (simp add: fl_def ulp_def)
qed

lemma round_half_even_bounds:
  assumes "\<bar>q\<bar> < 2 ^ 53"
  shows "\<bar>round_half_even q\<bar> \<le> 2 ^ 53"
proof -
  have "q < of_int (2 ^ 53)" "of_int (- (2 ^ 53)) < q" using assms by auto
  then have "\<lfloor>q\<rfloor> < 2 ^ 53" "- (2 ^ 53) \<le> \<lfloor>q\<rfloor>"
    by (simp_all add: floor_less_iff le_floor_iff)
  moreover have "\<lfloor>q\<rfloor> \<le> round_half_even q" "round_half_even q \<le> \<lfloor>q\<rfloor> + 1"
    by (simp_all add: round_half_even_def Let_def)
  ultimately show ?thesis by linarith
qed

lemma fl_idem: "fl (fl r) = fl r"
proof (cases "r = 0")
  case True
  then show ?thesis by (simp add: fl_def)
next
  case False
  define e where "e = dexp r"
  define n where "n = round_half_even (r / ulp r)"
  have e: "- 1022 \<le> e" by (simp add: e_def dexp_ge)
  have u: "ulp r = 2 powr of_int (e - 52)" by (simp add: ulp_def e_def)
  have flr: "fl r = of_int n * 2 powr of_int (e - 52)"
    using False by (simp add: fl_def n_def u)
  have "\<bar>r\<bar> < 2 powr of_int (e + 1)" using abs_less_ulp_range[OF False] by (simp add: e_def)
  also have "\<dots> = 2 powr (53 + of_int (e - 52))" by (simp add: add.commute)
  also have "\<dots> = 2 ^ 53 * 2 powr of_int (e - 52)"
    by (simp only: powr_add) simp
  finally have "\<bar>r / ulp r\<bar> < 2 ^ 53"
    by (simp add: u abs_divide pos_divide_less_eq)
  then have nb: "\<bar>n\<bar> \<le> 2 ^ 53" unfolding n_def by (rule round_half_even_bounds)
  show ?thesis
  proof (cases "\<bar>n\<bar> < 2 ^ 53")
    case True
    then show ?thesis using fl_exact[of n "e - 52"] e by (simp add: flr)
  next
    case False
    then have "n = 2 ^ 53 \<or> n = - (2 ^ 53)" using nb by linarith
    moreover have "(2::real) powr of_int (e - 51) = 2 * 2 powr of_int (e - 52)"
    proof -
      have "(of_int (e - 51) :: real) = of_int (e - 52) + 1" by simp
      then show ?thesis by (simp only: powr_add) simp
    qed
    ultimately have "fl r = of_int (n div 2) * 2 powr of_int (e - 51) \<and> \<bar>n div 2\<bar> < 2 ^ 53"
      by (auto simp: flr)
    then show ?thesis using fl_exact[of "n div 2" "e - 51"] e by simp
  qed
qed

lemma lit_1e_6_val: "lit_1e_6 = 4722366482869645 / 2 ^ 72"
proof -
  have "fl (1 / 1000000) = of_int (round_half_even ((1 / 1000000) / 2 powr of_int (- 20 - 52))) * 2 powr of_int (- 20 - 52)"
    by (rule fl_eval) (simp_all add: powr_minus field_simps)
  also have "\<dots> = 4722366482869645 / 2 ^ 72"
    by (simp add: powr_minus round_half_even_def Let_def)
  finally show ?thesis by (simp add: lit_1e_6_def)
qed

lemma fl_1e16_plus_1: "fl 10000000000000001 = 10000000000000000"
proof -
  have "fl 10000000000000001 = of_int (round_half_even (10000000000000001 / 2 powr of_int (53 - 52))) * 2 powr of_int (53 - 52)"
    by (rule fl_eval) (simp_all add: two_powr_int)
  also have "\<dots> = 10000000000000000"
    by (simp add: two_powr_int round_half_even_def Let_def)
  finally show ?thesis .
qed

lemma fl_1e16: "fl 10000000000000000 = 10000000000000000"
  using fl_exact[of 152587890625 16] by (simp add: two_powr_int)


lemma fl_half: "fl (1 / 2) = 1 / 2"
  using fl_exact[of 1 "- 1"] by (simp add: powr_minus)

section \<open>Calibration\<close>

lemma lit_1e_6_pos: "0 < lit_1e_6"
  by (simp add: lit_1e_6_val)

lemma setCalib_success:
  assumes "calib s = (xb, yb) # (xt, yt) # rest"
    and "yminEl_number s = Some vmin" and "ymaxEl_number s = Some vmax"
    and "\<not> \<bar>js_sub yb yt\<bar> < lit_1e_6"
  shows "setCalib_onclick s =
           Inr (s\<lparr>affine := Some \<lparr>c_vmin = vmin, c_yb = yb,
                                   c_pixelRange = js_sub yb yt, c_dataRange = js_sub vmax vmin\<rparr>,
                   mode := Some (modeEl_value s),
                   startIdx := Some (indexOf calendarNames (startEl_value s))\<rparr>)"
  using assms by (simp add: setCalib_onclick_def Let_def)

lemma setCalib_InrD:
  assumes "setCalib_onclick s = Inr s'"
  obtains xb yb xt yt rest vmin vmax where
    "calib s = (xb, yb) # (xt, yt) # rest"
    "yminEl_number s = Some vmin" "ymaxEl_number s = Some vmax"
    "\<not> \<bar>js_sub yb yt\<bar> < lit_1e_6"
    "s' = s\<lparr>affine := Some \<lparr>c_vmin = vmin, c_yb = yb,
                              c_pixelRange = js_sub yb yt, c_dataRange = js_sub vmax vmin\<rparr>,
              mode := Some (modeEl_value s),
              startIdx := Some (indexOf calendarNames (startEl_value s))\<rparr>"
  using assms
  by (auto simp: setCalib_onclick_def Let_def split: list.splits option.splits if_splits)

lemma example_setCalib: "setCalib_onclick example_two_points = Inr example_calibrated"
proof -
  have "js_sub 500 100 = 400" "js_sub 1000 0 = 1000"
    by (simp_all add: js_sub_def fl_numeral)
  then show ?thesis
    by (simp add: setCalib_onclick_def example_two_points_def example_page_def
        initial_state_def example_calibrated_def example_closure_def lit_1e_6_val
        calendarNames_def)
qed

text \<open>
  C9: the map that a successful calibration stores does not depend on its \<open>x\<close>
  argument: it gives the same value at \<open>(x1, y)\<close> and at \<open>(x2, y)\<close>.
\<close>

theorem affine_independent_of_x:
  "setCalib_onclick s = Inr s' \<Longrightarrow>
     \<exists>c. affine s' = Some c \<and> (\<forall>x1 x2 y. apply_affine c x1 y = apply_affine c x2 y)"
  by (erule setCalib_InrD) (simp add: apply_affine_def)

theorem affine_independent_of_x_witness:
  "setCalib_onclick example_two_points = Inr example_calibrated \<and>
   (\<exists>c. affine example_calibrated = Some c \<and>
        (\<forall>x1 x2 y. apply_affine c x1 y = apply_affine c x2 y))"
  using affine_independent_of_x[OF example_setCalib] example_setCalib by simp


lemma example_affine_300: "apply_affine example_closure x 300 = 500"
proof -
  have a: "js_sub 500 300 = 200" by (simp add: js_sub_def fl_numeral)
  have b: "js_div 200 400 = 1 / 2" by (simp add: js_div_def fl_half)
  have c: "js_mul (1 / 2) 1000 = 500" by (simp add: js_mul_def fl_numeral)
  have d: "js_add 0 500 = 500" by (simp add: js_add_def fl_numeral)
  show ?thesis
    unfolding apply_affine_def example_closure_def affine_closure.simps
    by (simp only: a b c d)
qed

text \<open>
  C1: with two calibration points \<open>(xb, yb)\<close> and \<open>(xt, yt)\<close> whose difference
  \<open>yb - yt\<close> is not below \<open>1e-6\<close> in absolute value, and numeric bounds, setting the
  calibration succeeds and stores the map
  \<open>value(x, y) = vmin + ((yb - y) / (yb - yt)) * (vmax - vmin)\<close>, each operator being
  the one of the source. With the points at \<open>y = 500\<close> (value 0) and \<open>y = 100\<close>
  (value 1000), a month point at \<open>y = 300\<close> has the axis value 500.
\<close>

theorem setCalib_affine_formula:
  assumes "calib s = [(xb, yb), (xt, yt)]"
    and "yminEl_number s = Some vmin" and "ymaxEl_number s = Some vmax"
    and "\<not> \<bar>js_sub yb yt\<bar> < lit_1e_6"
  shows "\<exists>s' c. setCalib_onclick s = Inr s' \<and> affine s' = Some c \<and>
           (\<forall>x y. apply_affine c x y =
              js_add vmin (js_mul (js_div (js_sub yb y) (js_sub yb yt)) (js_sub vmax vmin))) \<and>
           (yb = 500 \<and> yt = 100 \<and> vmin = 0 \<and> vmax = 1000 \<longrightarrow>
              (\<forall>x. apply_affine c x 300 = 500) \<and>
              (\<forall>t i x. monthPts t ! i = (x, 300) \<longrightarrow> axisVal (result_row t c i) = 500))"
proof -
  let ?c = "\<lparr>c_vmin = vmin, c_yb = yb, c_pixelRange = js_sub yb yt,
             c_dataRange = js_sub vmax vmin\<rparr>"
  let ?s' = "s\<lparr>affine := Some ?c, mode := Some (modeEl_value s),
              startIdx := Some (indexOf calendarNames (startEl_value s))\<rparr>"
  have ok: "setCalib_onclick s = Inr ?s'"
    using assms by (intro setCalib_success) auto
  have formula: "\<forall>x y. apply_affine ?c x y =
      js_add vmin (js_mul (js_div (js_sub yb y) (js_sub yb yt)) (js_sub vmax vmin))"
    by (simp add: apply_affine_def)
  have scenario: "yb = 500 \<and> yt = 100 \<and> vmin = 0 \<and> vmax = 1000 \<longrightarrow>
      (\<forall>x. apply_affine ?c x 300 = 500) \<and>
      (\<forall>t i x. monthPts t ! i = (x, 300) \<longrightarrow> axisVal (result_row t ?c i) = 500)"
  proof (intro impI)
    assume v: "yb = 500 \<and> yt = 100 \<and> vmin = 0 \<and> vmax = 1000"
    have "js_sub 500 100 = 400" "js_sub 1000 0 = 1000"
      by (simp_all add: js_sub_def fl_numeral)
    with v have "?c = example_closure" by (simp add: example_closure_def)
    then show "(\<forall>x. apply_affine ?c x 300 = 500) \<and>
      (\<forall>t i x. monthPts t ! i = (x, 300) \<longrightarrow> axisVal (result_row t ?c i) = 500)"
      by (simp add: example_affine_300 result_row_def Let_def)
  qed
  show ?thesis
    using ok formula scenario by (intro exI[of _ ?s'] exI[of _ ?c]) simp
qed

theorem setCalib_affine_formula_witness:
  "calib example_two_points = [(100, 500), (120, 100)] \<and>
   yminEl_number example_two_points = Some 0 \<and>
   ymaxEl_number example_two_points = Some 1000 \<and>
   \<not> \<bar>js_sub 500 100\<bar> < lit_1e_6 \<and>
   (\<exists>s' c. setCalib_onclick example_two_points = Inr s' \<and> affine s' = Some c \<and>
      apply_affine c 7 300 = 500)"
proof -
  have h: "calib example_two_points = [(100, 500), (120, 100)]"
    "yminEl_number example_two_points = Some 0"
    "ymaxEl_number example_two_points = Some 1000"
    by (simp_all add: example_two_points_def example_page_def initial_state_def)
  have g: "\<not> \<bar>js_sub 500 100\<bar> < lit_1e_6"
    by (simp add: js_sub_def fl_numeral lit_1e_6_val)
  from setCalib_affine_formula[OF h g] h g show ?thesis by blast
qed

section \<open>Endpoints of the map\<close>

lemma representable_fl: "representable r \<Longrightarrow> fl r = r"
  by (simp add: representable_def)

lemma affine_at_bottom:
  assumes "fl vmin = vmin"
  shows "apply_affine \<lparr>c_vmin = vmin, c_yb = yb, c_pixelRange = pr, c_dataRange = dr\<rparr> x yb = vmin"
  using assms
  by (simp add: apply_affine_def js_add_def js_mul_def js_div_def js_sub_def fl_0)

lemma affine_at_top:
  assumes "\<not> \<bar>js_sub yb yt\<bar> < lit_1e_6"
  shows "apply_affine \<lparr>c_vmin = vmin, c_yb = yb, c_pixelRange = js_sub yb yt,
                        c_dataRange = js_sub vmax vmin\<rparr> x yt
         = js_add vmin (js_sub vmax vmin)"
proof -
  have "js_sub yb yt \<noteq> 0" using assms lit_1e_6_pos by auto
  then have "js_div (js_sub yb yt) (js_sub yb yt) = 1" by (simp add: js_div_def fl_1)
  moreover have "js_mul 1 (js_sub vmax vmin) = js_sub vmax vmin"
    by (simp add: js_mul_def js_sub_def fl_idem)
  ultimately show ?thesis by (simp add: apply_affine_def)
qed

text \<open>
  C5, as amended: for two calibration points with \<open>yb - yt\<close> not below \<open>1e-6\<close> in
  absolute value and bounds that are finite doubles whose difference does not overflow,
  the stored map gives exactly \<open>vmin\<close> at \<open>y = yb\<close> for every \<open>x\<close>; at \<open>y = yt\<close> it gives
  \<open>vmin + (vmax - vmin)\<close> as double arithmetic computes it, which is \<open>vmax\<close> whenever
  the difference \<open>vmax - vmin\<close> is itself a double.
\<close>

theorem affine_endpoints:
  assumes "calib s = [(xb, yb), (xt, yt)]"
    and "yminEl_number s = Some vmin" and "ymaxEl_number s = Some vmax"
    and "\<not> \<bar>js_sub yb yt\<bar> < lit_1e_6"
    and "representable vmin" and "representable vmax"
    and "in_range (vmax - vmin)" and "in_range (yb - yt)"
  shows "\<exists>s' c. setCalib_onclick s = Inr s' \<and> affine s' = Some c \<and>
           (\<forall>x. apply_affine c x yb = vmin) \<and>
           (\<forall>x. apply_affine c x yt = js_add vmin (js_sub vmax vmin)) \<and>
           (fl (vmax - vmin) = vmax - vmin \<longrightarrow> (\<forall>x. apply_affine c x yt = vmax))"
proof -
  let ?c = "\<lparr>c_vmin = vmin, c_yb = yb, c_pixelRange = js_sub yb yt,
             c_dataRange = js_sub vmax vmin\<rparr>"
  let ?s' = "s\<lparr>affine := Some ?c, mode := Some (modeEl_value s),
              startIdx := Some (indexOf calendarNames (startEl_value s))\<rparr>"
  have ok: "setCalib_onclick s = Inr ?s'"
    using assms(1-4) by (intro setCalib_success) auto
  have bottom: "\<forall>x. apply_affine ?c x yb = vmin"
    using assms(5) by (simp add: affine_at_bottom representable_fl)
  have top: "\<forall>x. apply_affine ?c x yt = js_add vmin (js_sub vmax vmin)"
    using assms(4) by (simp add: affine_at_top)
  have exact: "fl (vmax - vmin) = vmax - vmin \<longrightarrow> (\<forall>x. apply_affine ?c x yt = vmax)"
  proof
    assume e: "fl (vmax - vmin) = vmax - vmin"
    have "js_add vmin (js_sub vmax vmin) = fl (vmin + (vmax - vmin))"
      by (simp only: js_add_def js_sub_def e)
    also have "\<dots> = vmax" using assms(6) by (simp add: representable_fl)
    finally show "\<forall>x. apply_affine ?c x yt = vmax" using top by simp
  qed
  show ?thesis
    using ok bottom top exact by (intro exI[of _ ?s'] exI[of _ ?c]) simp
qed


theorem affine_endpoints_witness:
  "calib example_two_points = [(100, 500), (120, 100)] \<and>
   yminEl_number example_two_points = Some 0 \<and>
   ymaxEl_number example_two_points = Some 1000 \<and>
   \<not> \<bar>js_sub 500 100\<bar> < lit_1e_6 \<and>
   representable 0 \<and> representable 1000 \<and> in_range (1000 - 0) \<and> in_range (500 - 100) \<and>
   fl (1000 - 0) = 1000 - 0 \<and>
   (\<exists>s' c. setCalib_onclick example_two_points = Inr s' \<and> affine s' = Some c \<and>
      apply_affine c 7 500 = 0 \<and> apply_affine c 7 100 = 1000)"
proof -
  have h: "calib example_two_points = [(100, 500), (120, 100)]"
    "yminEl_number example_two_points = Some 0"
    "ymaxEl_number example_two_points = Some 1000"
    by (simp_all add: example_two_points_def example_page_def initial_state_def)
  have g: "\<not> \<bar>js_sub 500 100\<bar> < lit_1e_6"
    by (simp add: js_sub_def fl_numeral lit_1e_6_val)
  have r: "representable 0" "representable 1000"
    by (simp_all add: representable_def fl_0 fl_numeral)
  have i: "in_range (1000 - 0)" "in_range (500 - 100)"
    by (simp_all add: in_range_def)
  have e: "fl (1000 - 0) = 1000 - 0" by (simp add: fl_numeral)
  from affine_endpoints[OF h g r i] e h g r i show ?thesis by blast
qed

text \<open>
  The bounds \<open>-1e16\<close> and \<open>1\<close>: their difference \<open>1e16 + 1\<close> is not a double and
  rounds to \<open>1e16\<close>.
\<close>


theorem affine_endpoints_counterexample:
  "calib (example_two_points\<lparr>yminEl_number := Some (- 10000000000000000), ymaxEl_number := Some 1\<rparr>)
     = [(100, 500), (120, 100)] \<and>
   \<not> \<bar>js_sub 500 100\<bar> < lit_1e_6 \<and>
   (- 10000000000000000 :: real) < 1 \<and>
   representable (- 10000000000000000) \<and> representable 1 \<and>
   in_range (1 - (- 10000000000000000)) \<and> in_range (500 - 100) \<and>
   setCalib_onclick (example_two_points\<lparr>yminEl_number := Some (- 10000000000000000), ymaxEl_number := Some 1\<rparr>)
     = Inr (example_two_points\<lparr>yminEl_number := Some (- 10000000000000000), ymaxEl_number := Some 1,
              affine := Some \<lparr>c_vmin = - 10000000000000000, c_yb = 500, c_pixelRange = 400,
                                c_dataRange = 10000000000000000\<rparr>,
              mode := Some ''Total'', startIdx := Some 0\<rparr>) \<and>
   apply_affine \<lparr>c_vmin = - 10000000000000000, c_yb = 500, c_pixelRange = 400,
                  c_dataRange = 10000000000000000\<rparr> 100 100 = 0 \<and>
   apply_affine \<lparr>c_vmin = - 10000000000000000, c_yb = 500, c_pixelRange = 400,
                  c_dataRange = 10000000000000000\<rparr> 100 100 \<noteq> 1"
proof -
  have a: "js_sub 500 100 = 400" by (simp add: js_sub_def fl_numeral)
  have b: "js_sub 1 (- 10000000000000000) = 10000000000000000"
    by (simp add: js_sub_def fl_1e16_plus_1)
  have c: "js_div 400 400 = 1" by (simp add: js_div_def fl_1)
  have d: "js_mul 1 10000000000000000 = 10000000000000000" by (simp add: js_mul_def fl_1e16)
  have e: "js_add (- 10000000000000000) 10000000000000000 = 0" by (simp add: js_add_def fl_0)
  have f: "apply_affine \<lparr>c_vmin = - 10000000000000000, c_yb = 500, c_pixelRange = 400,
                  c_dataRange = 10000000000000000\<rparr> 100 100 = 0"
    unfolding apply_affine_def affine_closure.simps by (simp only: a c d e)
  have g: "\<not> \<bar>js_sub 500 100\<bar> < lit_1e_6" by (simp add: a lit_1e_6_val)
  have "fl (- 10000000000000000) = - 10000000000000000"
    using fl_exact[of "- 152587890625" 16] by (simp add: two_powr_int)
  then have r: "representable (- 10000000000000000)" "representable 1"
    by (simp_all add: representable_def fl_1)
  have i: "in_range (1 - (- 10000000000000000))" "in_range (500 - 100)"
    by (simp_all add: in_range_def)
  show ?thesis
    using f g r i
    by (simp add: setCalib_onclick_def a b example_two_points_def example_page_def
        initial_state_def calendarNames_def)
qed

section \<open>Failures of the calibration\<close>

lemma setCalib_Inl_unchanged: "setCalib_onclick s = Inl e \<Longrightarrow> step s SetCalib = s"
  by simp

text \<open>
  C4, as amended: with two calibration points, setting the calibration fails with
  \<open>InvalidInput\<close> exactly when a bound does not parse to a number, and with
  \<open>InvalidCalibration\<close> exactly when both bounds parse and \<open>yb - yt\<close> is below \<open>1e-6\<close> in
  absolute value; every failure leaves the whole state, the stored map included, as it
  was.
\<close>

theorem setCalib_failures:
  assumes "calib s = [(xb, yb), (xt, yt)]"
  shows "(setCalib_onclick s = Inl InvalidInput \<longleftrightarrow>
            yminEl_number s = None \<or> ymaxEl_number s = None) \<and>
         (setCalib_onclick s = Inl InvalidCalibration \<longleftrightarrow>
            yminEl_number s \<noteq> None \<and> ymaxEl_number s \<noteq> None \<and> \<bar>js_sub yb yt\<bar> < lit_1e_6) \<and>
         (\<forall>e. setCalib_onclick s = Inl e \<longrightarrow>
            step s SetCalib = s \<and> affine (step s SetCalib) = affine s)"
proof (intro conjI allI impI)
  show "setCalib_onclick s = Inl InvalidInput \<longleftrightarrow>
          yminEl_number s = None \<or> ymaxEl_number s = None"
    using assms by (auto simp: setCalib_onclick_def Let_def split: option.splits)
  show "setCalib_onclick s = Inl InvalidCalibration \<longleftrightarrow>
          yminEl_number s \<noteq> None \<and> ymaxEl_number s \<noteq> None \<and> \<bar>js_sub yb yt\<bar> < lit_1e_6"
    using assms by (auto simp: setCalib_onclick_def Let_def split: option.splits)
next
  fix e assume "setCalib_onclick s = Inl e"
  then show "step s SetCalib = s" by (rule setCalib_Inl_unchanged)
  then show "affine (step s SetCalib) = affine s" by simp
qed

lemma js_sub_500_500: "js_sub 500 500 = 0"
  by (simp add: js_sub_def fl_0)

theorem setCalib_failures_witness:
  "calib example_close_points = [(100, 500), (120, 500)] \<and>
   setCalib_onclick example_close_points = Inl InvalidCalibration \<and>
   step example_close_points SetCalib = example_close_points \<and>
   affine (step example_close_points SetCalib) = Some example_closure"
proof -
  have h: "calib example_close_points = [(100, 500), (120, 500)]"
    by (simp add: example_close_points_def)
  have b: "yminEl_number example_close_points \<noteq> None" "ymaxEl_number example_close_points \<noteq> None"
    by (simp_all add: example_close_points_def example_calibrated_def example_two_points_def
        example_page_def initial_state_def)
  have c: "\<bar>js_sub 500 500\<bar> < lit_1e_6" by (simp add: js_sub_500_500 lit_1e_6_pos)
  have a: "affine example_close_points = Some example_closure"
    by (simp add: example_close_points_def example_calibrated_def)
  from setCalib_failures[OF h] b c have f: "setCalib_onclick example_close_points = Inl InvalidCalibration"
    and u: "\<forall>e. setCalib_onclick example_close_points = Inl e \<longrightarrow>
            step example_close_points SetCalib = example_close_points \<and>
            affine (step example_close_points SetCalib) = affine example_close_points"
    by blast+
  from u f have "step example_close_points SetCalib = example_close_points"
    "affine (step example_close_points SetCalib) = affine example_close_points" by blast+
  with h f a show ?thesis by simp
qed

text \<open>
  Two calibration points at the same height and a lower bound that is not a number: the
  handler reports the bound (line 183) and never reaches the test of line 185.
\<close>

theorem setCalib_failures_counterexample:
  "calib example_close_no_bound = [(100, 500), (120, 500)] \<and>
   \<bar>js_sub 500 500\<bar> < lit_1e_6 \<and>
   setCalib_onclick example_close_no_bound = Inl InvalidInput \<and>
   setCalib_onclick example_close_no_bound \<noteq> Inl InvalidCalibration"
  by (simp add: js_sub_500_500 lit_1e_6_pos setCalib_onclick_def example_close_no_bound_def
      example_close_points_def example_calibrated_def example_two_points_def
      example_page_def initial_state_def)


section \<open>Storing points\<close>

lemma computeResults_keeps:
  "calib (computeResults s) = calib s" "monthPts (computeResults s) = monthPts s"
  "affine (computeResults s) = affine s" "origImg (computeResults s) = origImg s"
  "img (computeResults s) = img s"
  by (simp_all add: computeResults_def Let_def split: option.splits prod.splits)

lemma computeResults_runs:
  "affine s \<noteq> None \<Longrightarrow> 12 \<le> length (monthPts s) \<Longrightarrow> resultsTable (computeResults s) \<noteq> None"
  by (auto simp: computeResults_def Let_def split: option.splits prod.splits)

lemma addPoint_lengths:
  "length (calib s) \<le> 2 \<Longrightarrow> length (monthPts s) \<le> 12 \<Longrightarrow>
     length (calib (addPoint s p)) \<le> 2 \<and> length (monthPts (addPoint s p)) \<le> 12"
  by (simp add: addPoint_def Let_def computeResults_keeps)

text \<open>What lines 164 to 173 do with a point, case by case.\<close>

lemma addPoint_cases:
  "(2 \<le> length (calib s) \<longrightarrow> calib (addPoint s p) = calib s) \<and>
   (length (calib s) < 2 \<longrightarrow> addPoint s p = s\<lparr>calib := calib s @ [p]\<rparr>) \<and>
   (2 \<le> length (calib s) \<and> (affine s = None \<or> 12 \<le> length (monthPts s)) \<longrightarrow>
      addPoint s p = s) \<and>
   (2 \<le> length (calib s) \<and> affine s \<noteq> None \<and> length (monthPts s) < 12 \<longrightarrow>
      monthPts (addPoint s p) = monthPts s @ [p] \<and>
      (length (monthPts s) = 11 \<longrightarrow>
         addPoint s p = computeResults (s\<lparr>monthPts := monthPts s @ [p]\<rparr>) \<and>
         resultsTable (addPoint s p) \<noteq> None) \<and>
      (length (monthPts s) \<noteq> 11 \<longrightarrow> addPoint s p = s\<lparr>monthPts := monthPts s @ [p]\<rparr>))"
proof (intro conjI impI)
  assume a: "2 \<le> length (calib s) \<and> affine s \<noteq> None \<and> length (monthPts s) < 12"
  then show "monthPts (addPoint s p) = monthPts s @ [p]"
    by (simp add: addPoint_def Let_def computeResults_keeps)
  {
    assume "length (monthPts s) = 11"
    with a show "addPoint s p = computeResults (s\<lparr>monthPts := monthPts s @ [p]\<rparr>)"
      by (simp add: addPoint_def Let_def)
    with a \<open>length (monthPts s) = 11\<close> show "resultsTable (addPoint s p) \<noteq> None"
      by (simp add: computeResults_runs)
  }
  {
    assume "length (monthPts s) \<noteq> 11"
    with a show "addPoint s p = s\<lparr>monthPts := monthPts s @ [p]\<rparr>"
      by (simp add: addPoint_def Let_def)
  }
qed (auto simp: addPoint_def Let_def computeResults_keeps)

lemma example_eleven_facts:
  "length (calib example_eleven) = 2" "affine example_eleven \<noteq> None"
  "length (monthPts example_eleven) = 11" "\<not> click_ignored example_eleven"
  by (simp_all add: example_eleven_def example_calibrated_def example_two_points_def
      example_page_def initial_state_def click_ignored_def)

section \<open>When the map is dropped\<close>

lemma mouse_keeps:
  "affine (canvas_mousedown s r x y) = affine s \<and> calib (canvas_mousedown s r x y) = calib s \<and>
   origImg (canvas_mousedown s r x y) = origImg s \<and> img (canvas_mousedown s r x y) = img s"
  "affine (canvas_mousemove s r x y) = affine s \<and> calib (canvas_mousemove s r x y) = calib s \<and>
   origImg (canvas_mousemove s r x y) = origImg s \<and> img (canvas_mousemove s r x y) = img s"
  "affine (canvas_mouseup s r) = affine s \<and> calib (canvas_mouseup s r) = calib s \<and>
   origImg (canvas_mouseup s r) = origImg s \<and> img (canvas_mouseup s r) = img s"
  "affine (canvas_mouseleave s) = affine s \<and> calib (canvas_mouseleave s) = calib s \<and>
   origImg (canvas_mouseleave s) = origImg s \<and> img (canvas_mouseleave s) = img s"
  "affine (cropToggle_onclick s) = affine s \<and> calib (cropToggle_onclick s) = calib s \<and>
   origImg (cropToggle_onclick s) = origImg s \<and> img (cropToggle_onclick s) = img s"
  "affine (undo_onclick s) = affine s \<and> calib (undo_onclick s) = calib s \<and>
   origImg (undo_onclick s) = origImg s \<and> img (undo_onclick s) = img s"
  by (simp_all add: canvas_mousedown_def canvas_mousemove_def canvas_mouseup_def
      canvas_mouseleave_def cropToggle_onclick_def undo_onclick_def Let_def
      split: option.splits prod.splits)

lemma addPoint_keeps:
  "affine (addPoint s p) = affine s" "origImg (addPoint s p) = origImg s"
  "img (addPoint s p) = img s"
  by (simp_all add: addPoint_def Let_def computeResults_keeps)

lemma canvas_click_keeps:
  "affine (canvas_click s r x y) = affine s" "origImg (canvas_click s r x y) = origImg s"
  "img (canvas_click s r x y) = img s"
  by (simp_all add: canvas_click_def Let_def addPoint_keeps)

lemma canvas_click_calib:
  "calib (canvas_click s r x y) \<noteq> calib s \<Longrightarrow> length (calib s) < 2"
  by (auto simp: canvas_click_def addPoint_def Let_def computeResults_keeps split: if_splits)

lemma canvas_click_calib_length: "length (calib s) \<le> length (calib (canvas_click s r x y))"
  by (simp add: canvas_click_def addPoint_def Let_def computeResults_keeps)

lemma applyCrop_cases:
  "applyCrop s = Inl EmptyCrop \<or> applyCrop s = Inr s \<or>
   (\<exists>p. applyCrop s = Inr (newImage_onload p s))"
  by (auto simp: applyCrop_def applyCrop_onclick_def Let_def split: option.splits sum.splits)

lemma step_ApplyCrop_cases:
  "step s ApplyCrop = s \<or> (\<exists>p. step s ApplyCrop = newImage_onload p s)"
  using applyCrop_cases[of s] by auto

lemma newImage_onload_affine: "affine (newImage_onload p s) = None"
  by (simp add: newImage_onload_def)

lemma setCalib_keeps:
  "setCalib_onclick s = Inr s' \<Longrightarrow>
     calib s' = calib s \<and> origImg s' = origImg s \<and> img s' = img s \<and>
     affine s' \<noteq> None \<and> 2 \<le> length (calib s)"
  by (erule setCalib_InrD) simp

lemma calib_inv_initial: "calib_inv (initial_state cw ch ymin ymax modeV startV disp)"
  by (simp add: calib_inv_def initial_state_def)

lemma calib_inv_step: "calib_inv s \<Longrightarrow> calib_inv (step s e)"
proof (cases e)
  case (Click r x y)
  assume "calib_inv s"
  then show ?thesis
    using canvas_click_calib_length[of s r x y]
    by (auto simp: Click calib_inv_def canvas_click_keeps)
next
  case SetCalib
  assume "calib_inv s"
  then show ?thesis
    by (auto simp: SetCalib calib_inv_def split: sum.splits dest: setCalib_keeps)
next
  case ApplyCrop
  assume "calib_inv s"
  moreover have "step s ApplyCrop = s \<or> affine (step s ApplyCrop) = None"
    using step_ApplyCrop_cases[of s] by (auto simp only: newImage_onload_affine)
  ultimately show ?thesis
    unfolding ApplyCrop by (auto simp only: calib_inv_def)
qed (auto simp: calib_inv_def mouse_keeps upload_onchange_def reset_onclick_def
      newImage_onload_def split: option.splits)

lemma calib_inv_run: "calib_inv (run (initial_state cw ch ymin ymax modeV startV disp) evs)"
  by (induction evs rule: rev_induct) (simp_all add: run_def calib_inv_initial calib_inv_step)

lemma step_changes_calib:
  assumes "calib_inv s" and "calib (step s e) \<noteq> calib s"
  shows "affine (step s e) = None"
proof (cases e)
  case (Click r x y)
  with assms(2) have "length (calib s) < 2" by (auto dest: canvas_click_calib)
  with assms(1) have "affine s = None" by (auto simp: calib_inv_def)
  then show ?thesis by (simp add: Click canvas_click_keeps)
next
  case SetCalib
  with assms(2) show ?thesis by (auto split: sum.splits dest: setCalib_keeps)
next
  case ApplyCrop
  have "step s ApplyCrop = s \<or> affine (step s ApplyCrop) = None"
    using step_ApplyCrop_cases[of s] by (auto simp only: newImage_onload_affine)
  with assms(2) show ?thesis unfolding ApplyCrop by auto
next
  case (Upload f)
  with assms(2) show ?thesis by (cases f) (auto simp: upload_onchange_def)
qed (use assms(2) in \<open>auto simp: mouse_keeps reset_onclick_def newImage_onload_def\<close>)

lemma step_changes_image:
  assumes "origImg (step s e) \<noteq> origImg s \<or> img (step s e) \<noteq> img s"
  shows "affine (step s e) = None"
proof (cases e)
  case SetCalib
  with assms show ?thesis by (auto split: sum.splits dest: setCalib_keeps)
next
  case ApplyCrop
  have "step s ApplyCrop = s \<or> affine (step s ApplyCrop) = None"
    using step_ApplyCrop_cases[of s] by (auto simp only: newImage_onload_affine)
  with assms show ?thesis unfolding ApplyCrop by auto
next
  case (Upload f)
  with assms show ?thesis by (cases f) (auto simp: upload_onchange_def)
qed (use assms in \<open>auto simp: mouse_keeps reset_onclick_def newImage_onload_def canvas_click_keeps\<close>)


section \<open>Reaching the calibrated page\<close>

lemma example_click_point:
  "getCanvasPointFromClient s example_rect x y =
     \<lparr>p_cx = js_mul (js_sub x 0) (js_div (real (canvas_width s)) 800),
      p_cy = js_mul (js_sub y 0) (js_div (real (canvas_height s)) 600),
      p_cssX = js_sub x 0, p_cssY = js_sub y 0,
      p_scaleX = js_div (real (canvas_width s)) 800,
      p_scaleY = js_div (real (canvas_height s)) 600\<rparr>"
  by (simp add: getCanvasPointFromClient_def example_rect_def Let_def)

lemma example_reached:
  "run example_page [Click example_rect 100 500, Click example_rect 120 100, SetCalib]
     = example_calibrated"
proof -
  have a: "js_div 800 800 = 1" "js_div 600 600 = 1"
    by (simp_all add: js_div_def fl_1)
  have b: "js_sub 100 0 = 100" "js_sub 500 0 = 500" "js_sub 120 0 = 120"
    by (simp_all add: js_sub_def fl_numeral)
  have c: "js_mul 100 1 = 100" "js_mul 500 1 = 500" "js_mul 120 1 = 120"
    by (simp_all add: js_mul_def fl_numeral)
  have 1: "canvas_click example_page example_rect 100 500
             = example_page\<lparr>calib := [(100, 500)]\<rparr>"
    by (simp add: canvas_click_def click_ignored_def example_click_point addPoint_def
        example_page_def initial_state_def a b c)
  have 2: "canvas_click (example_page\<lparr>calib := [(100, 500)]\<rparr>) example_rect 120 100
             = example_two_points"
    by (simp add: canvas_click_def click_ignored_def example_click_point addPoint_def
        example_page_def initial_state_def example_two_points_def a b c)
  show ?thesis
    by (simp add: run_def 1 2 example_setCalib)
qed

text \<open>
  C3, as amended: in every state the page can reach, an event that changes the
  calibration points or replaces the image leaves no map stored; so do an upload of a
  file, a reset and a crop that has loaded. Editing a bound field leaves the stored map
  as it was, and setting the calibration again stores a map.
\<close>

theorem affine_dropped:
  assumes "s = run (initial_state cw ch ymin ymax modeV startV disp) evs"
  shows "(calib (step s e) \<noteq> calib s \<longrightarrow> affine (step s e) = None) \<and>
         (origImg (step s e) \<noteq> origImg s \<or> img (step s e) \<noteq> img s \<longrightarrow>
            affine (step s e) = None) \<and>
         affine (step s (Upload (Some im))) = None \<and>
         affine (step s Reset) = None \<and>
         affine (step s (CropLoaded p)) = None \<and>
         affine (step s (YminInput v)) = affine s \<and>
         affine (step s (YmaxInput v)) = affine s \<and>
         (\<forall>s'. setCalib_onclick s = Inr s' \<longrightarrow> affine s' \<noteq> None)"
proof -
  have "calib_inv s" unfolding assms by (rule calib_inv_run)
  then have "calib (step s e) \<noteq> calib s \<longrightarrow> affine (step s e) = None"
    by (auto dest: step_changes_calib)
  moreover have "origImg (step s e) \<noteq> origImg s \<or> img (step s e) \<noteq> img s \<longrightarrow>
      affine (step s e) = None"
    using step_changes_image[of s e] by blast
  moreover have "\<forall>s'. setCalib_onclick s = Inr s' \<longrightarrow> affine s' \<noteq> None"
    by (auto dest: setCalib_keeps)
  ultimately show ?thesis
    by (simp add: upload_onchange_def reset_onclick_def newImage_onload_def)
qed

theorem affine_dropped_witness:
  "example_calibrated =
     run (initial_state 800 600 (Some 0) (Some 1000) ''Total'' ''Jan'' ''none'')
       [Click example_rect 100 500, Click example_rect 120 100, SetCalib] \<and>
   calib (step example_calibrated Reset) \<noteq> calib example_calibrated \<and>
   affine (step example_calibrated Reset) = None \<and>
   origImg (step example_calibrated (Upload (Some example_image))) \<noteq> origImg example_calibrated \<and>
   affine (step example_calibrated (Upload (Some example_image))) = None \<and>
   setCalib_onclick example_calibrated = Inr example_calibrated \<and>
   affine example_calibrated \<noteq> None \<and>
   affine (step example_calibrated (YminInput (Some 5))) = affine example_calibrated"
proof -
  have r: "example_calibrated =
     run (initial_state 800 600 (Some 0) (Some 1000) ''Total'' ''Jan'' ''none'')
       [Click example_rect 100 500, Click example_rect 120 100, SetCalib]"
    using example_reached by (simp add: example_page_def)
  have c: "calib (step example_calibrated Reset) \<noteq> calib example_calibrated"
    by (simp add: reset_onclick_def example_calibrated_def example_two_points_def)
  have u: "origImg (step example_calibrated (Upload (Some example_image)))
             \<noteq> origImg example_calibrated"
    by (simp add: upload_onchange_def example_calibrated_def example_two_points_def
        example_page_def initial_state_def)
  have "example_calibrated = example_two_points\<lparr>affine := Some example_closure,
          mode := Some ''Total'', startIdx := Some 0\<rparr>"
    by (simp add: example_calibrated_def)
  have a: "js_sub 500 100 = 400" "js_sub 1000 0 = 1000"
    by (simp_all add: js_sub_def fl_numeral)
  have s: "setCalib_onclick example_calibrated = Inr example_calibrated"
    by (simp add: setCalib_onclick_def a lit_1e_6_val example_calibrated_def
        example_two_points_def example_page_def initial_state_def example_closure_def
        calendarNames_def)
  from affine_dropped[OF r, of Reset] c
  have 1: "affine (step example_calibrated Reset) = None" by blast
  from affine_dropped[OF r, of "Upload (Some example_image)"] u
  have 2: "affine (step example_calibrated (Upload (Some example_image))) = None" by blast
  from affine_dropped[OF r, of Reset _ _ "Some 5"] s
  have 3: "affine example_calibrated \<noteq> None"
    "affine (step example_calibrated (YminInput (Some 5))) = affine example_calibrated"
    by blast+
  from r c u s 1 2 3 show ?thesis by blast
qed




text \<open>
  On the calibrated page the user edits the lower bound: the bound changes and the map
  built from the old bound stays; setting the calibration again stores a map.
\<close>

theorem affine_dropped_counterexample:
  "run example_page [Click example_rect 100 500, Click example_rect 120 100, SetCalib]
     = example_calibrated \<and>
   affine example_calibrated = Some example_closure \<and>
   yminEl_number (step example_calibrated (YminInput (Some 5)))
     \<noteq> yminEl_number example_calibrated \<and>
   affine (step example_calibrated (YminInput (Some 5))) = Some example_closure \<and>
   affine (step (step example_calibrated (YminInput (Some 5))) SetCalib)
     = Some \<lparr>c_vmin = 5, c_yb = 500, c_pixelRange = 400, c_dataRange = 995\<rparr>"
proof -
  have a: "js_sub 500 100 = 400" "js_sub 1000 5 = 995"
    by (simp_all add: js_sub_def fl_numeral)
  have "affine example_calibrated = Some example_closure \<and>
   yminEl_number (step example_calibrated (YminInput (Some 5)))
     \<noteq> yminEl_number example_calibrated \<and>
   affine (step example_calibrated (YminInput (Some 5))) = Some example_closure \<and>
   affine (step (step example_calibrated (YminInput (Some 5))) SetCalib)
     = Some \<lparr>c_vmin = 5, c_yb = 500, c_pixelRange = 400, c_dataRange = 995\<rparr>"
    by (simp add: setCalib_onclick_def a lit_1e_6_val
        example_calibrated_def example_two_points_def example_page_def initial_state_def)
  with example_reached show ?thesis by (simp only: simp_thms)
qed

section \<open>Applying a crop\<close>

lemma Math_round_of_int: "Math_round (of_int k) = of_int k"
proof -
  have "\<lfloor>(of_int k :: real) + 1 / 2\<rfloor> = k" by linarith
  then show ?thesis by (simp add: Math_round_def)
qed

lemma Math_round_numeral: "Math_round (numeral n) = numeral n"
  using Math_round_of_int[of "numeral n"] by simp

lemma Math_round_0: "Math_round 0 = 0"
  using Math_round_of_int[of 0] by simp

lemma Math_round_int: "real_of_int \<lfloor>Math_round r\<rfloor> = Math_round r"
  by (simp add: Math_round_def)

lemma clamp_w_nonneg:
  "0 \<le> box_w (clampCanvasBox cw ch b)" "0 \<le> box_h (clampCanvasBox cw ch b)"
  by (simp_all add: clampCanvasBox_def Let_def)

lemma cropSourceBox_empty:
  "box_w cb = 0 \<Longrightarrow> box_w (cropSourceBox s cb) = 0"
  "box_h cb = 0 \<Longrightarrow> box_h (cropSourceBox s cb) = 0"
  by (simp_all add: cropSourceBox_def Let_def js_mul_def fl_0 Math_round_0)

lemma cropSourceBox_int:
  "real_of_int \<lfloor>box_w (cropSourceBox s cb)\<rfloor> = box_w (cropSourceBox s cb)"
  "real_of_int \<lfloor>box_h (cropSourceBox s cb)\<rfloor> = box_h (cropSourceBox s cb)"
  by (simp_all add: cropSourceBox_def Let_def Math_round_int)

lemma applyCrop_guard:
  "origImg s = None \<or> cropRect_display s = ''none'' \<Longrightarrow> applyCrop s = Inr s"
  by (auto simp: applyCrop_def applyCrop_onclick_def split: option.splits)

lemma applyCrop_empty:
  assumes "origImg s = Some orig" and "cropRect_display s \<noteq> ''none''"
    and "box_w (cropSourceBox s (clampCanvasBox (canvas_width s) (canvas_height s) (cropBox s))) \<le> 0
       \<or> box_h (cropSourceBox s (clampCanvasBox (canvas_width s) (canvas_height s) (cropBox s))) \<le> 0"
  shows "applyCrop s = Inl EmptyCrop"
  using assms by (simp add: applyCrop_def applyCrop_onclick_def Let_def)

lemma applyCrop_done:
  assumes "origImg s = Some orig" and "cropRect_display s \<noteq> ''none''"
    and "src = cropSourceBox s (clampCanvasBox (canvas_width s) (canvas_height s) (cropBox s))"
    and "0 < box_w src" and "0 < box_h src"
  shows "applyCrop s =
           Inr (newImage_onload
                  \<lparr>pc_newImage = Cropped orig (box_x src) (box_y src)
                                    (nat \<lfloor>box_w src\<rfloor>) (nat \<lfloor>box_h src\<rfloor>),
                   pc_sw = nat \<lfloor>box_w src\<rfloor>, pc_sh = nat \<lfloor>box_h src\<rfloor>\<rparr> s)"
proof -
  let ?cb = "clampCanvasBox (canvas_width s) (canvas_height s) (cropBox s)"
  have "box_w ?cb \<noteq> 0" "box_h ?cb \<noteq> 0"
    using assms(3-5) cropSourceBox_empty[of ?cb s] by auto
  then have "0 < box_w ?cb" "0 < box_h ?cb"
    using clamp_w_nonneg[of "canvas_width s" "canvas_height s" "cropBox s"] by auto
  then show ?thesis
    using assms by (simp add: applyCrop_def applyCrop_onclick_def Let_def)
qed


text \<open>
  C6, as amended: without an original image, or with the crop rectangle hidden, the
  handler returns at once and changes nothing. Otherwise, with \<open>src\<close> the clamped crop
  box in the pixels of the original image: when the width or the height of \<open>src\<close> is
  not positive the crop fails with \<open>EmptyCrop\<close> and the state is unchanged; when both
  are positive the canvas takes exactly the size of \<open>src\<close>, the image cut from the
  original becomes both the original and the displayed image, the calibration points,
  the month points and the map are cleared, and the crop mode is off.
\<close>

theorem applyCrop_outcome:
  "(origImg s = None \<or> cropRect_display s = ''none'' \<longrightarrow> applyCrop s = Inr s) \<and>
   (\<forall>orig src.
      origImg s = Some orig \<and> cropRect_display s \<noteq> ''none'' \<and>
      src = cropSourceBox s (clampCanvasBox (canvas_width s) (canvas_height s) (cropBox s)) \<longrightarrow>
        (box_w src \<le> 0 \<or> box_h src \<le> 0 \<longrightarrow>
           applyCrop s = Inl EmptyCrop \<and> step s ApplyCrop = s) \<and>
        (0 < box_w src \<and> 0 < box_h src \<longrightarrow>
           (\<exists>s'. applyCrop s = Inr s' \<and> step s ApplyCrop = s' \<and>
              real (canvas_width s') = box_w src \<and> real (canvas_height s') = box_h src \<and>
              origImg s' = Some (Cropped orig (box_x src) (box_y src)
                                   (canvas_width s') (canvas_height s')) \<and>
              img s' = origImg s' \<and>
              origW s' = canvas_width s' \<and> origH s' = canvas_height s' \<and>
              calib s' = [] \<and> monthPts s' = [] \<and> affine s' = None \<and>
              \<not> isCropping s')))"
proof (intro conjI allI impI)
  assume "origImg s = None \<or> cropRect_display s = ''none''"
  then show "applyCrop s = Inr s" by (rule applyCrop_guard)
next
  fix orig src
  assume a: "origImg s = Some orig \<and> cropRect_display s \<noteq> ''none'' \<and>
      src = cropSourceBox s (clampCanvasBox (canvas_width s) (canvas_height s) (cropBox s))"
  {
    assume "box_w src \<le> 0 \<or> box_h src \<le> 0"
    with a show e: "applyCrop s = Inl EmptyCrop" by (auto intro: applyCrop_empty)
    then show "step s ApplyCrop = s" by simp
  }
  {
    assume p: "0 < box_w src \<and> 0 < box_h src"
    let ?p = "\<lparr>pc_newImage = Cropped orig (box_x src) (box_y src)
                                    (nat \<lfloor>box_w src\<rfloor>) (nat \<lfloor>box_h src\<rfloor>),
               pc_sw = nat \<lfloor>box_w src\<rfloor>, pc_sh = nat \<lfloor>box_h src\<rfloor>\<rparr>"
    have d: "applyCrop s = Inr (newImage_onload ?p s)"
      using a p by (intro applyCrop_done) auto
    have i: "real_of_int \<lfloor>box_w src\<rfloor> = box_w src" "real_of_int \<lfloor>box_h src\<rfloor> = box_h src"
      using a by (simp_all add: cropSourceBox_int)
    have "0 < \<lfloor>box_w src\<rfloor>" "0 < \<lfloor>box_h src\<rfloor>" using p i by linarith+
    then have "real (nat \<lfloor>box_w src\<rfloor>) = box_w src" "real (nat \<lfloor>box_h src\<rfloor>) = box_h src"
      using i by simp_all
    then show "\<exists>s'. applyCrop s = Inr s' \<and> step s ApplyCrop = s' \<and>
              real (canvas_width s') = box_w src \<and> real (canvas_height s') = box_h src \<and>
              origImg s' = Some (Cropped orig (box_x src) (box_y src)
                                   (canvas_width s') (canvas_height s')) \<and>
              img s' = origImg s' \<and>
              origW s' = canvas_width s' \<and> origH s' = canvas_height s' \<and>
              calib s' = [] \<and> monthPts s' = [] \<and> affine s' = None \<and>
              \<not> isCropping s'"
      using d by (intro exI[of _ "newImage_onload ?p s"]) (simp add: newImage_onload_def)
  }
qed

lemma example_crop_source:
  "cropSourceBox example_crop_image (clampCanvasBox 800 600 (cropBox example_crop_image))
     = \<lparr>box_x = 20, box_y = 20, box_w = 100, box_h = 100\<rparr>"
proof -
  have a: "js_div 1600 800 = 2" "js_div 1200 600 = 2"
    by (simp_all add: js_div_def fl_numeral)
  have b: "js_mul 10 2 = 20" "js_mul 50 2 = 100"
    by (simp_all add: js_mul_def fl_numeral)
  show ?thesis
    by (simp add: cropSourceBox_def clampCanvasBox_def example_crop_image_def
        example_crop_no_image_def example_page_def initial_state_def
        Math_round_numeral a b Let_def)
qed

theorem applyCrop_outcome_witness:
  "origImg example_crop_image = Some example_image \<and>
   cropRect_display example_crop_image \<noteq> ''none'' \<and>
   cropSourceBox example_crop_image
     (clampCanvasBox (canvas_width example_crop_image) (canvas_height example_crop_image)
        (cropBox example_crop_image))
     = \<lparr>box_x = 20, box_y = 20, box_w = 100, box_h = 100\<rparr> \<and>
   (\<exists>s'. applyCrop example_crop_image = Inr s' \<and>
      real (canvas_width s') = 100 \<and> real (canvas_height s') = 100 \<and>
      origImg s' = Some (Cropped example_image 20 20 (canvas_width s') (canvas_height s')) \<and>
      img s' = origImg s' \<and> calib s' = [] \<and> monthPts s' = [] \<and> affine s' = None \<and>
      \<not> isCropping s') \<and>
   origImg example_crop_empty = Some example_image \<and>
   box_w (cropSourceBox example_crop_empty
            (clampCanvasBox (canvas_width example_crop_empty) (canvas_height example_crop_empty)
               (cropBox example_crop_empty))) \<le> 0 \<and>
   applyCrop example_crop_empty = Inl EmptyCrop \<and>
   step example_crop_empty ApplyCrop = example_crop_empty \<and>
   origImg example_crop_no_image = None \<and>
   applyCrop example_crop_no_image = Inr example_crop_no_image"
proof -
  have h: "origImg example_crop_image = Some example_image"
    "cropRect_display example_crop_image \<noteq> ''none''"
    "canvas_width example_crop_image = 800" "canvas_height example_crop_image = 600"
    by (simp_all add: example_crop_image_def example_crop_no_image_def example_page_def
        initial_state_def)
  let ?src = "\<lparr>box_x = 20, box_y = 20, box_w = 100, box_h = 100 :: real\<rparr>"
  have s: "?src = cropSourceBox example_crop_image
     (clampCanvasBox (canvas_width example_crop_image) (canvas_height example_crop_image)
        (cropBox example_crop_image))"
    by (simp add: h example_crop_source)
  have p: "0 < box_w ?src \<and> 0 < box_h ?src" by simp
  from applyCrop_outcome[of example_crop_image] h(1,2) s p
  have "\<exists>s'. applyCrop example_crop_image = Inr s' \<and> step example_crop_image ApplyCrop = s' \<and>
      real (canvas_width s') = box_w ?src \<and> real (canvas_height s') = box_h ?src \<and>
      origImg s' = Some (Cropped example_image (box_x ?src) (box_y ?src)
                           (canvas_width s') (canvas_height s')) \<and>
      img s' = origImg s' \<and>
      origW s' = canvas_width s' \<and> origH s' = canvas_height s' \<and>
      calib s' = [] \<and> monthPts s' = [] \<and> affine s' = None \<and> \<not> isCropping s'"
    by blast
  then obtain s' where t: "applyCrop example_crop_image = Inr s'"
    "real (canvas_width s') = box_w ?src" "real (canvas_height s') = box_h ?src"
    "origImg s' = Some (Cropped example_image (box_x ?src) (box_y ?src)
                           (canvas_width s') (canvas_height s'))"
    "img s' = origImg s'" "calib s' = []" "monthPts s' = []" "affine s' = None"
    "\<not> isCropping s'"
    by blast
  have 1: "\<exists>s'. applyCrop example_crop_image = Inr s' \<and>
      real (canvas_width s') = 100 \<and> real (canvas_height s') = 100 \<and>
      origImg s' = Some (Cropped example_image 20 20 (canvas_width s') (canvas_height s')) \<and>
      img s' = origImg s' \<and> calib s' = [] \<and> monthPts s' = [] \<and> affine s' = None \<and>
      \<not> isCropping s'"
    using t by (intro exI[of _ s']) simp
  have e: "origImg example_crop_empty = Some example_image"
    "cropRect_display example_crop_empty \<noteq> ''none''"
    by (simp_all add: example_crop_empty_def example_crop_image_def example_crop_no_image_def
        example_page_def initial_state_def)
  have "box_w (clampCanvasBox (canvas_width example_crop_empty)
                 (canvas_height example_crop_empty) (cropBox example_crop_empty)) = 0"
    by (simp add: example_crop_empty_def clampCanvasBox_def zero_box_def Math_round_0 Let_def)
  then have w: "box_w (cropSourceBox example_crop_empty
            (clampCanvasBox (canvas_width example_crop_empty) (canvas_height example_crop_empty)
               (cropBox example_crop_empty))) \<le> 0"
    by (simp add: cropSourceBox_empty)
  from applyCrop_outcome[of example_crop_empty] e w
  have 2: "applyCrop example_crop_empty = Inl EmptyCrop"
    "step example_crop_empty ApplyCrop = example_crop_empty"
    by blast+
  have n: "origImg example_crop_no_image = None"
    by (simp add: example_crop_no_image_def example_page_def initial_state_def)
  from applyCrop_outcome[of example_crop_no_image] n
  have 3: "applyCrop example_crop_no_image = Inr example_crop_no_image" by blast
  from h(1,2) s[symmetric] 1 e(1) w 2 n 3 show ?thesis by (simp only: simp_thms)
qed

lemma example_crop_reached:
  "run example_page [CropToggle, MouseDown example_rect 10 10,
                     MouseMove example_rect 60 60, MouseUp example_rect]
     = example_crop_no_image"
proof -
  have a: "js_div 800 800 = 1" "js_div 600 600 = 1"
    by (simp_all add: js_div_def fl_1)
  have b: "js_sub 10 0 = 10" "js_sub 60 0 = 60" "js_sub 60 10 = 50"
    by (simp_all add: js_sub_def fl_numeral)
  have c: "js_mul 10 1 = 10" "js_mul 60 1 = 60" "js_mul 50 1 = 50"
    by (simp_all add: js_mul_def fl_numeral)
  have d: "js_add 10 0 = 10" by (simp add: js_add_def fl_numeral)
  let ?s1 = "example_page\<lparr>isCropping := True, cropRect_display := ''block''\<rparr>"
  let ?s2 = "?s1\<lparr>cropStart := Some \<lparr>cs_cssX = 10, cs_cssY = 10, cs_cx = 10, cs_cy = 10\<rparr>,
                 cropBox := \<lparr>box_x = 10, box_y = 10, box_w = 0, box_h = 0\<rparr>,
                 cropRect_left := 10, cropRect_top := 10\<rparr>"
  let ?s3 = "?s2\<lparr>cropBox := \<lparr>box_x = 10, box_y = 10, box_w = 50, box_h = 50\<rparr>,
                 cropRect_width := 50, cropRect_height := 50\<rparr>"
  have 1: "cropToggle_onclick example_page = ?s1"
    by (simp add: cropToggle_onclick_def example_page_def initial_state_def)
  have 2: "canvas_mousedown ?s1 example_rect 10 10 = ?s2"
    by (simp add: canvas_mousedown_def example_click_point example_page_def
        initial_state_def a b c d Let_def)
  have r: "rect_width example_rect = 800" "rect_height example_rect = 600"
    by (simp_all add: example_rect_def)
  have 3: "canvas_mousemove ?s2 example_rect 60 60 = ?s3"
    by (simp add: canvas_mousemove_def example_click_point example_page_def
        initial_state_def r a b c Math_round_numeral Let_def)
  have 4: "canvas_mouseup ?s3 example_rect = example_crop_no_image"
    by (simp add: canvas_mouseup_def clampCanvasBox_def example_page_def
        initial_state_def r a c Math_round_numeral example_crop_no_image_def Let_def)
  have "run example_page [CropToggle, MouseDown example_rect 10 10,
                          MouseMove example_rect 60 60, MouseUp example_rect]
        = canvas_mouseup (canvas_mousemove (canvas_mousedown (cropToggle_onclick example_page)
            example_rect 10 10) example_rect 60 60) example_rect"
    by (simp add: run_def)
  also have "\<dots> = example_crop_no_image" by (simp only: 1 2 3 4)
  finally show ?thesis .
qed

text \<open>
  No image is loaded and a box has been dragged. In the pixels of the original image
  the box has width 0, yet pressing the button reports no \<open>EmptyCrop\<close>: the handler
  returns at line 321.
\<close>

theorem applyCrop_outcome_counterexample:
  "run example_page [CropToggle, MouseDown example_rect 10 10,
                     MouseMove example_rect 60 60, MouseUp example_rect]
     = example_crop_no_image \<and>
   box_w (cropSourceBox example_crop_no_image
            (clampCanvasBox 800 600 (cropBox example_crop_no_image))) \<le> 0 \<and>
   applyCrop example_crop_no_image = Inr example_crop_no_image \<and>
   applyCrop example_crop_no_image \<noteq> Inl EmptyCrop"
proof -
  have a: "js_div 0 800 = 0" by (simp add: js_div_def fl_0)
  have b: "js_mul 50 0 = 0" by (simp add: js_mul_def fl_0)
  have "origImg example_crop_no_image = None"
    by (simp add: example_crop_no_image_def example_page_def initial_state_def)
  then have g: "applyCrop example_crop_no_image = Inr example_crop_no_image"
    by (simp add: applyCrop_guard)
  have w: "box_w (cropSourceBox example_crop_no_image
            (clampCanvasBox 800 600 (cropBox example_crop_no_image))) \<le> 0"
    by (simp add: cropSourceBox_def clampCanvasBox_def example_crop_no_image_def
        example_page_def initial_state_def Math_round_numeral Math_round_0 a b Let_def)
  from example_crop_reached g w show ?thesis by simp
qed

section \<open>The results table\<close>

lemma js_rem_nonneg: "0 \<le> a \<Longrightarrow> js_rem a 12 = a mod 12"
  by (cases "a = 0") (simp_all add: js_rem_def)

lemma month_index_in_range:
  assumes "0 \<le> k"
  shows "month_index (Some k) i = Some (int ((nat k + i) mod 12))"
proof -
  have e: "k + int i = int (nat k + i)" using assms by simp
  have "js_rem (k + int i) 12 = (k + int i) mod 12" using assms by (simp add: js_rem_nonneg)
  also have "\<dots> = int ((nat k + i) mod 12)" by (simp only: e zmod_int) simp
  finally show ?thesis by (simp only: month_index_def option.map)
qed

lemma js_index_in_range: "m < length xs \<Longrightarrow> js_index xs (Some (int m)) = Some (xs ! m)"
  by (simp add: js_index_def)

lemma result_row_in_range:
  assumes "startIdx s = Some k" and "0 \<le> k"
  shows "result_row s c i =
           (let a = apply_affine c (fst (monthPts s ! i)) (snd (monthPts s ! i));
                m = (nat k + i) mod 12
            in \<lparr>monthName = Some (calendarNames ! m), axisVal = a,
                finalVal = Some (if mode s = Some ''Daily average''
                                 then js_mul a (daysInMonth ! m) else a)\<rparr>)"
proof -
  have m: "(nat k + i) mod 12 < length calendarNames" "(nat k + i) mod 12 < length daysInMonth"
    by (simp_all add: calendarNames_def daysInMonth_def)
  show ?thesis
    using assms
    by (simp add: result_row_def Let_def month_index_in_range js_index_in_range[OF m(1)]
        js_index_in_range[OF m(2)] nan_mul_def split: prod.splits)
qed

lemma foldl_result_step:
  "foldl (result_step s c) acc ns =
     (fst acc @ map (result_row s c) ns,
      foldl nan_add (snd acc) (map (\<lambda>i. finalVal (result_row s c i)) ns))"
  by (induction ns arbitrary: acc) (simp_all add: result_step_def Let_def)

lemma foldl_nan_add_Some: "foldl nan_add (Some t) (map Some vs) = Some (foldl js_add t vs)"
  by (induction vs arbitrary: t) (simp_all add: nan_add_def)

lemma computeResults_unfold:
  assumes "affine s = Some c" and "12 \<le> length (monthPts s)"
  shows "resultsTable (computeResults s) = Some (map (result_row s c) [0..<12])"
    and "annualLabel (computeResults s)
           = Some (foldl nan_add (Some 0) (map (\<lambda>i. finalVal (result_row s c i)) [0..<12]))"
  using assms by (simp_all add: computeResults_def foldl_result_step Let_def)

text \<open>
  C2: with exactly twelve month points, a stored map, a mode and a start index from 0
  to 11, \<open>computeResults\<close> writes twelve rows in the order of the month points. Row
  \<open>i\<close> has the axis value of the map at point \<open>i\<close>; its final value is the axis value
  times the days of month \<open>(startIdx + i) mod 12\<close> in the table
  \<open>[31, 28, 31, 30, 31, 30, 31, 31, 30, 31, 30, 31]\<close> in the daily-average mode, and
  the axis value itself otherwise; its label is the name of month
  \<open>(startIdx + i) mod 12\<close>; and the annual total is the sum of the twelve final
  values, added from the first to the last.
\<close>

theorem computeResults_rows:
  assumes "length (monthPts s) = 12" and "affine s = Some c"
    and "startIdx s = Some k" and "0 \<le> k" and "k < 12"
  shows "(let a = (\<lambda>i. apply_affine c (fst (monthPts s ! i)) (snd (monthPts s ! i)));
              m = (\<lambda>i. (nat k + i) mod 12);
              final = (\<lambda>i. if mode s = Some ''Daily average''
                             then js_mul (a i) (daysInMonth ! m i) else a i)
          in resultsTable (computeResults s)
               = Some (map (\<lambda>i. \<lparr>monthName = Some (calendarNames ! m i), axisVal = a i,
                                   finalVal = Some (final i)\<rparr>) [0..<12]) \<and>
             annualLabel (computeResults s)
               = Some (Some (foldl js_add 0 (map final [0..<12]))) \<and>
             daysInMonth = [31, 28, 31, 30, 31, 30, 31, 31, 30, 31, 30, 31] \<and>
             calendarNames = [''Jan'', ''Feb'', ''Mar'', ''Apr'', ''May'', ''Jun'',
                              ''Jul'', ''Aug'', ''Sep'', ''Oct'', ''Nov'', ''Dec''])"
proof -
  let ?a = "\<lambda>i. apply_affine c (fst (monthPts s ! i)) (snd (monthPts s ! i))"
  let ?m = "\<lambda>i. (nat k + i) mod 12"
  let ?final = "\<lambda>i. if mode s = Some ''Daily average''
                      then js_mul (?a i) (daysInMonth ! ?m i) else ?a i"
  have row: "result_row s c = (\<lambda>i. \<lparr>monthName = Some (calendarNames ! ?m i), axisVal = ?a i,
                                      finalVal = Some (?final i)\<rparr>)"
    using assms(3,4) by (intro ext) (simp add: result_row_in_range Let_def)
  have 1: "resultsTable (computeResults s)
             = Some (map (\<lambda>i. \<lparr>monthName = Some (calendarNames ! ?m i), axisVal = ?a i,
                                 finalVal = Some (?final i)\<rparr>) [0..<12])"
    using assms(1,2) by (simp add: computeResults_unfold(1) row)
  have "(\<lambda>i. finalVal (result_row s c i)) = (\<lambda>i. Some (?final i))"
    by (simp add: row)
  then have "map (\<lambda>i. finalVal (result_row s c i)) [0..<12] = map Some (map ?final [0..<12])"
    by (simp only: map_map comp_def)
  then have 2: "annualLabel (computeResults s) = Some (Some (foldl js_add 0 (map ?final [0..<12])))"
    using assms(1,2) by (simp only: computeResults_unfold(2) foldl_nan_add_Some)
  show ?thesis
    unfolding Let_def using 1 2 by (simp add: daysInMonth_def calendarNames_def)
qed


lemma upt_12: "[0..<12] = [0, 1, 2, 3, 4, 5, 6, 7, 8, 9, 10, 11]"
  by code_simp

theorem computeResults_rows_witness:
  "length (monthPts example_twelve) = 12 \<and> affine example_twelve = Some example_closure \<and>
   startIdx example_twelve = Some 2 \<and> mode example_twelve = Some ''Daily average'' \<and>
   resultsTable (computeResults example_twelve) =
     Some [\<lparr>monthName = Some ''Mar'', axisVal = 500, finalVal = Some 15500\<rparr>,
           \<lparr>monthName = Some ''Apr'', axisVal = 500, finalVal = Some 15000\<rparr>,
           \<lparr>monthName = Some ''May'', axisVal = 500, finalVal = Some 15500\<rparr>,
           \<lparr>monthName = Some ''Jun'', axisVal = 500, finalVal = Some 15000\<rparr>,
           \<lparr>monthName = Some ''Jul'', axisVal = 500, finalVal = Some 15500\<rparr>,
           \<lparr>monthName = Some ''Aug'', axisVal = 500, finalVal = Some 15500\<rparr>,
           \<lparr>monthName = Some ''Sep'', axisVal = 500, finalVal = Some 15000\<rparr>,
           \<lparr>monthName = Some ''Oct'', axisVal = 500, finalVal = Some 15500\<rparr>,
           \<lparr>monthName = Some ''Nov'', axisVal = 500, finalVal = Some 15000\<rparr>,
           \<lparr>monthName = Some ''Dec'', axisVal = 500, finalVal = Some 15500\<rparr>,
           \<lparr>monthName = Some ''Jan'', axisVal = 500, finalVal = Some 15500\<rparr>,
           \<lparr>monthName = Some ''Feb'', axisVal = 500, finalVal = Some 14000\<rparr>] \<and>
   annualLabel (computeResults example_twelve) = Some (Some 182500)"
proof -
  have h: "length (monthPts example_twelve) = 12" "affine example_twelve = Some example_closure"
    "startIdx example_twelve = Some 2" "(0::int) \<le> 2" "(2::int) < 12"
    by (simp_all add: example_twelve_def example_calibrated_def)
  have md: "mode example_twelve = Some ''Daily average''"
    by (simp add: example_twelve_def)
  have pts: "monthPts example_twelve = replicate 12 (50, 300)"
    by (simp add: example_twelve_def)
  have mul: "js_mul 500 31 = 15500" "js_mul 500 30 = 15000" "js_mul 500 28 = 14000"
    by (simp_all add: js_mul_def fl_numeral)
  have add: "js_add 0 15500 = 15500" "js_add 15500 15000 = 30500" "js_add 30500 15500 = 46000"
    "js_add 46000 15000 = 61000" "js_add 61000 15500 = 76500" "js_add 76500 15500 = 92000"
    "js_add 92000 15000 = 107000" "js_add 107000 15500 = 122500" "js_add 122500 15000 = 137500"
    "js_add 137500 15500 = 153000" "js_add 153000 15500 = 168500" "js_add 168500 14000 = 182500"
    by (simp_all add: js_add_def fl_numeral)
  from computeResults_rows[OF h]
  have "resultsTable (computeResults example_twelve) =
     Some [\<lparr>monthName = Some ''Mar'', axisVal = 500, finalVal = Some 15500\<rparr>,
           \<lparr>monthName = Some ''Apr'', axisVal = 500, finalVal = Some 15000\<rparr>,
           \<lparr>monthName = Some ''May'', axisVal = 500, finalVal = Some 15500\<rparr>,
           \<lparr>monthName = Some ''Jun'', axisVal = 500, finalVal = Some 15000\<rparr>,
           \<lparr>monthName = Some ''Jul'', axisVal = 500, finalVal = Some 15500\<rparr>,
           \<lparr>monthName = Some ''Aug'', axisVal = 500, finalVal = Some 15500\<rparr>,
           \<lparr>monthName = Some ''Sep'', axisVal = 500, finalVal = Some 15000\<rparr>,
           \<lparr>monthName = Some ''Oct'', axisVal = 500, finalVal = Some 15500\<rparr>,
           \<lparr>monthName = Some ''Nov'', axisVal = 500, finalVal = Some 15000\<rparr>,
           \<lparr>monthName = Some ''Dec'', axisVal = 500, finalVal = Some 15500\<rparr>,
           \<lparr>monthName = Some ''Jan'', axisVal = 500, finalVal = Some 15500\<rparr>,
           \<lparr>monthName = Some ''Feb'', axisVal = 500, finalVal = Some 14000\<rparr>] \<and>
   annualLabel (computeResults example_twelve) = Some (Some 182500)"
    by (simp add: Let_def upt_12 md pts example_affine_300 daysInMonth_def calendarNames_def
        mul add)
  with h(1-3) md show ?thesis by (simp only: simp_thms)
qed

section \<open>The selections after calibration\<close>

lemma forget_fields:
  "calib (forget_selects s) = calib s" "monthPts (forget_selects s) = monthPts s"
  "affine (forget_selects s) = affine s" "mode (forget_selects s) = mode s"
  "startIdx (forget_selects s) = startIdx s"
  "resultsTable (forget_selects s) = resultsTable s"
  "annualLabel (forget_selects s) = annualLabel s"
  by (simp_all add: forget_selects_def)

lemma forget_update:
  "(forget_selects s)\<lparr>monthPts := ps\<rparr> = forget_selects (s\<lparr>monthPts := ps\<rparr>)"
  "(forget_selects s)\<lparr>calib := cs\<rparr> = forget_selects (s\<lparr>calib := cs\<rparr>)"
  by (simp_all add: forget_selects_def)

lemma forget_get:
  "origImg (forget_selects s) = origImg s" "origW (forget_selects s) = origW s"
  "origH (forget_selects s) = origH s" "img (forget_selects s) = img s"
  "cropStart (forget_selects s) = cropStart s" "isCropping (forget_selects s) = isCropping s"
  "isDragging (forget_selects s) = isDragging s" "dragOffset (forget_selects s) = dragOffset s"
  "cropBox (forget_selects s) = cropBox s"
  "canvas_width (forget_selects s) = canvas_width s"
  "canvas_height (forget_selects s) = canvas_height s"
  "cropRect_display (forget_selects s) = cropRect_display s"
  "cropRect_left (forget_selects s) = cropRect_left s"
  "cropRect_top (forget_selects s) = cropRect_top s"
  "cropRect_width (forget_selects s) = cropRect_width s"
  "cropRect_height (forget_selects s) = cropRect_height s"
  by (simp_all add: forget_selects_def)

lemma forget_set:
  "(forget_selects s)\<lparr>origImg := a1\<rparr> = forget_selects (s\<lparr>origImg := a1\<rparr>)"
  "(forget_selects s)\<lparr>origW := a2\<rparr> = forget_selects (s\<lparr>origW := a2\<rparr>)"
  "(forget_selects s)\<lparr>origH := a3\<rparr> = forget_selects (s\<lparr>origH := a3\<rparr>)"
  "(forget_selects s)\<lparr>img := a4\<rparr> = forget_selects (s\<lparr>img := a4\<rparr>)"
  "(forget_selects s)\<lparr>affine := a5\<rparr> = forget_selects (s\<lparr>affine := a5\<rparr>)"
  "(forget_selects s)\<lparr>cropStart := a6\<rparr> = forget_selects (s\<lparr>cropStart := a6\<rparr>)"
  "(forget_selects s)\<lparr>isCropping := a7\<rparr> = forget_selects (s\<lparr>isCropping := a7\<rparr>)"
  "(forget_selects s)\<lparr>isDragging := a8\<rparr> = forget_selects (s\<lparr>isDragging := a8\<rparr>)"
  "(forget_selects s)\<lparr>dragOffset := a9\<rparr> = forget_selects (s\<lparr>dragOffset := a9\<rparr>)"
  "(forget_selects s)\<lparr>cropBox := b1\<rparr> = forget_selects (s\<lparr>cropBox := b1\<rparr>)"
  "(forget_selects s)\<lparr>canvas_width := b2\<rparr> = forget_selects (s\<lparr>canvas_width := b2\<rparr>)"
  "(forget_selects s)\<lparr>canvas_height := b3\<rparr> = forget_selects (s\<lparr>canvas_height := b3\<rparr>)"
  "(forget_selects s)\<lparr>cropRect_display := b4\<rparr> = forget_selects (s\<lparr>cropRect_display := b4\<rparr>)"
  "(forget_selects s)\<lparr>cropRect_left := b5\<rparr> = forget_selects (s\<lparr>cropRect_left := b5\<rparr>)"
  "(forget_selects s)\<lparr>cropRect_top := b6\<rparr> = forget_selects (s\<lparr>cropRect_top := b6\<rparr>)"
  "(forget_selects s)\<lparr>cropRect_width := b7\<rparr> = forget_selects (s\<lparr>cropRect_width := b7\<rparr>)"
  "(forget_selects s)\<lparr>cropRect_height := b8\<rparr> = forget_selects (s\<lparr>cropRect_height := b8\<rparr>)"
  "(forget_selects s)\<lparr>resultsTable := b9\<rparr> = forget_selects (s\<lparr>resultsTable := b9\<rparr>)"
  "(forget_selects s)\<lparr>annualLabel := c1\<rparr> = forget_selects (s\<lparr>annualLabel := c1\<rparr>)"
  by (simp_all add: forget_selects_def)

lemma result_step_forget: "result_step (forget_selects s) c = result_step s c"
  by (intro ext) (simp add: result_step_def result_row_def forget_selects_def)

lemma computeResults_forget: "computeResults (forget_selects s) = forget_selects (computeResults s)"
proof -
  have "computeResults (forget_selects s) =
          (case affine s of None \<Rightarrow> forget_selects s
           | Some c \<Rightarrow> if length (monthPts s) < 12 then forget_selects s
               else (let (rows, total) = foldl (result_step s c) ([], Some 0) [0..<12]
                     in (forget_selects s)\<lparr>resultsTable := Some rows, annualLabel := Some total\<rparr>))"
    unfolding computeResults_def result_step_forget forget_fields by (rule refl)
  also have "\<dots> = forget_selects (computeResults s)"
    by (simp add: computeResults_def forget_selects_def Let_def split: option.splits prod.splits)
  finally show ?thesis .
qed

lemma addPoint_forget: "addPoint (forget_selects s) p = forget_selects (addPoint s p)"
  unfolding addPoint_def Let_def forget_fields forget_update computeResults_forget
  by simp

lemma point_forget:
  "getCanvasPointFromClient (forget_selects s) r x y = getCanvasPointFromClient s r x y"
  by (simp add: getCanvasPointFromClient_def forget_selects_def)

lemma canvas_click_forget:
  "canvas_click (forget_selects s) r x y = forget_selects (canvas_click s r x y)"
proof -
  have "click_ignored (forget_selects s) = click_ignored s"
    by (simp add: click_ignored_def forget_selects_def)
  then show ?thesis by (simp add: canvas_click_def Let_def point_forget addPoint_forget)
qed

lemma mouse_forget:
  "canvas_mousedown (forget_selects s) r x y = forget_selects (canvas_mousedown s r x y)"
  "canvas_mousemove (forget_selects s) r x y = forget_selects (canvas_mousemove s r x y)"
  "canvas_mouseup (forget_selects s) r = forget_selects (canvas_mouseup s r)"
  "canvas_mouseleave (forget_selects s) = forget_selects (canvas_mouseleave s)"
  "cropToggle_onclick (forget_selects s) = forget_selects (cropToggle_onclick s)"
  "undo_onclick (forget_selects s) = forget_selects (undo_onclick s)"
  "reset_onclick (forget_selects s) = forget_selects (reset_onclick s)"
  "upload_onchange (forget_selects s) f = forget_selects (upload_onchange s f)"
  "newImage_onload p (forget_selects s) = forget_selects (newImage_onload p s)"
  unfolding canvas_mousedown_def canvas_mousemove_def canvas_mouseup_def
    canvas_mouseleave_def cropToggle_onclick_def undo_onclick_def reset_onclick_def
    upload_onchange_def newImage_onload_def point_forget forget_get forget_fields
    forget_set forget_update Let_def
  by (simp_all only: if_distrib[of forget_selects] option.case_distrib[of forget_selects]
      prod.case_distrib[of forget_selects])

lemma cropSourceBox_forget: "cropSourceBox (forget_selects s) cb = cropSourceBox s cb"
  by (simp add: cropSourceBox_def forget_selects_def)

lemma applyCrop_onclick_forget: "applyCrop_onclick (forget_selects s) = applyCrop_onclick s"
  unfolding applyCrop_onclick_def cropSourceBox_forget forget_get by (rule refl)

lemma step_ApplyCrop_forget:
  "step (forget_selects s) ApplyCrop = forget_selects (step s ApplyCrop)"
  by (simp add: applyCrop_def applyCrop_onclick_forget mouse_forget
      split: sum.splits option.splits)

lemma step_forget:
  assumes "e \<noteq> SetCalib"
  shows "forget_selects (step s e)
           = (if is_select e then forget_selects s else step (forget_selects s) e)"
proof (cases e)
  case ApplyCrop
  then show ?thesis by (simp only: step_ApplyCrop_forget is_select.simps if_False)
qed (use assms in \<open>simp_all add: canvas_click_forget mouse_forget\<close>,
     simp_all add: forget_selects_def)


lemma run_Cons: "run s (e # evs) = run (step s e) evs"
  by (simp add: run_def)

lemma run_forget:
  "SetCalib \<notin> set evs \<Longrightarrow> forget_selects s = forget_selects t \<Longrightarrow>
     forget_selects (run s evs) = forget_selects (run t (filter (\<lambda>e. \<not> is_select e) evs))"
proof (induction evs arbitrary: s t)
  case Nil
  then show ?case by (simp add: run_def)
next
  case (Cons e evs)
  then have ne: "e \<noteq> SetCalib" and rest: "SetCalib \<notin> set evs" by auto
  show ?case
  proof (cases "is_select e")
    case True
    then have "forget_selects (step s e) = forget_selects t"
      using step_forget[OF ne, of s] Cons.prems(2) by simp
    from Cons.IH[OF rest this] True show ?thesis by (simp add: run_Cons)
  next
    case False
    then have "forget_selects (step s e) = forget_selects (step t e)"
      using step_forget[OF ne, of s] step_forget[OF ne, of t] Cons.prems(2) by simp
    from Cons.IH[OF rest this] False show ?thesis by (simp add: run_Cons)
  qed
qed

lemma computeResults_keeps_mode:
  "mode (computeResults s) = mode s" "startIdx (computeResults s) = startIdx s"
  by (simp_all add: computeResults_def Let_def split: option.splits prod.splits)

lemma handlers_keep_mode:
  "mode (canvas_mousedown s r x y) = mode s \<and> startIdx (canvas_mousedown s r x y) = startIdx s"
  "mode (canvas_mousemove s r x y) = mode s \<and> startIdx (canvas_mousemove s r x y) = startIdx s"
  "mode (canvas_mouseup s r) = mode s \<and> startIdx (canvas_mouseup s r) = startIdx s"
  "mode (canvas_mouseleave s) = mode s \<and> startIdx (canvas_mouseleave s) = startIdx s"
  "mode (cropToggle_onclick s) = mode s \<and> startIdx (cropToggle_onclick s) = startIdx s"
  "mode (undo_onclick s) = mode s \<and> startIdx (undo_onclick s) = startIdx s"
  "mode (reset_onclick s) = mode s \<and> startIdx (reset_onclick s) = startIdx s"
  "mode (upload_onchange s f) = mode s \<and> startIdx (upload_onchange s f) = startIdx s"
  "mode (newImage_onload p s) = mode s \<and> startIdx (newImage_onload p s) = startIdx s"
  "mode (canvas_click s r x y) = mode s \<and> startIdx (canvas_click s r x y) = startIdx s"
  by (simp_all add: canvas_mousedown_def canvas_mousemove_def canvas_mouseup_def
      canvas_mouseleave_def cropToggle_onclick_def undo_onclick_def reset_onclick_def
      upload_onchange_def newImage_onload_def canvas_click_def addPoint_def
      computeResults_keeps_mode Let_def split: option.splits prod.splits)

lemma step_keeps_mode:
  assumes "e \<noteq> SetCalib"
  shows "mode (step s e) = mode s \<and> startIdx (step s e) = startIdx s"
proof (cases e)
  case ApplyCrop
  then show ?thesis
    using step_ApplyCrop_cases[of s] by (auto simp: handlers_keep_mode)
qed (use assms in \<open>simp_all add: handlers_keep_mode\<close>)

lemma run_keeps_mode:
  "SetCalib \<notin> set evs \<Longrightarrow> mode (run s evs) = mode s \<and> startIdx (run s evs) = startIdx s"
proof (induction evs arbitrary: s)
  case Nil
  then show ?case by (simp add: run_def)
next
  case (Cons e evs)
  then have "e \<noteq> SetCalib" "SetCalib \<notin> set evs" by auto
  with Cons.IH[of "step s e"] step_keeps_mode[of e s] show ?case by (simp add: run_Cons)
qed

text \<open>
  C10: the mode and the start index that the extraction uses are the two selections as
  they were when the calibration was set. After a calibration that succeeded, and
  until the calibration is set again, no event changes them, and the results table and
  the annual total are the same as if the user had never touched the two selections.
\<close>

theorem selections_captured:
  assumes "setCalib_onclick s = Inr s'" and "SetCalib \<notin> set evs"
  shows "mode s' = Some (modeEl_value s) \<and>
         startIdx s' = Some (indexOf calendarNames (startEl_value s)) \<and>
         mode (run s' evs) = mode s' \<and> startIdx (run s' evs) = startIdx s' \<and>
         resultsTable (run s' evs)
           = resultsTable (run s' (filter (\<lambda>e. \<not> is_select e) evs)) \<and>
         annualLabel (run s' evs)
           = annualLabel (run s' (filter (\<lambda>e. \<not> is_select e) evs))"
proof -
  have c: "mode s' = Some (modeEl_value s)"
    "startIdx s' = Some (indexOf calendarNames (startEl_value s))"
    using assms(1) by (auto elim: setCalib_InrD)
  have "forget_selects (run s' evs)
          = forget_selects (run s' (filter (\<lambda>e. \<not> is_select e) evs))"
    using assms(2) by (intro run_forget) simp_all
  then have "resultsTable (forget_selects (run s' evs))
          = resultsTable (forget_selects (run s' (filter (\<lambda>e. \<not> is_select e) evs)))"
    "annualLabel (forget_selects (run s' evs))
          = annualLabel (forget_selects (run s' (filter (\<lambda>e. \<not> is_select e) evs)))"
    by simp_all
  then show ?thesis
    using c run_keeps_mode[OF assms(2), of s'] by (simp add: forget_fields)
qed


lemma example_click:
  assumes "\<not> click_ignored s" and "canvas_width s = 800" and "canvas_height s = 600"
  shows "canvas_click s example_rect 50 300 = addPoint s (50, 300)"
proof -
  have a: "js_div 800 800 = 1" "js_div 600 600 = 1"
    by (simp_all add: js_div_def fl_1)
  have b: "js_sub 50 0 = 50" "js_sub 300 0 = 300"
    by (simp_all add: js_sub_def fl_numeral)
  have c: "js_mul 50 1 = 50" "js_mul 300 1 = 300"
    by (simp_all add: js_mul_def fl_numeral)
  show ?thesis
    using assms by (simp add: canvas_click_def example_click_point a b c)
qed

lemma example_clicks:
  "n + k \<le> 11 \<Longrightarrow>
     run (example_calibrated\<lparr>monthPts := replicate n (50, 300)\<rparr>)
         (replicate k (Click example_rect 50 300))
       = example_calibrated\<lparr>monthPts := replicate (n + k) (50, 300)\<rparr>"
proof (induction k arbitrary: n)
  case 0
  then show ?case by (simp add: run_def)
next
  case (Suc k)
  let ?s = "example_calibrated\<lparr>monthPts := replicate n (50, 300)\<rparr>"
  have f: "\<not> click_ignored ?s" "canvas_width ?s = 800" "canvas_height ?s = 600"
    "length (calib ?s) = 2" "affine ?s \<noteq> None"
    by (simp_all add: click_ignored_def example_calibrated_def example_two_points_def
        example_page_def initial_state_def)
  have "canvas_click ?s example_rect 50 300 = addPoint ?s (50, 300)"
    using f(1-3) by (rule example_click)
  also have "\<dots> = example_calibrated\<lparr>monthPts := replicate (Suc n) (50, 300)\<rparr>"
    using f(4,5) Suc.prems by (simp add: addPoint_def Let_def replicate_append_same)
  finally have "run ?s (replicate (Suc k) (Click example_rect 50 300))
      = run (example_calibrated\<lparr>monthPts := replicate (Suc n) (50, 300)\<rparr>)
            (replicate k (Click example_rect 50 300))"
    by (simp add: run_Cons)
  also have "\<dots> = example_calibrated\<lparr>monthPts := replicate (Suc n + k) (50, 300)\<rparr>"
    using Suc.prems by (intro Suc.IH) simp
  finally show ?case by simp
qed

lemma replicate_12: "replicate 11 x @ [x] = replicate 12 x"
proof -
  have "(12::nat) = Suc 11" by simp
  then show ?thesis by (simp only: replicate_Suc replicate_append_same)
qed

lemma example_twelve_clicks:
  "run example_calibrated (replicate 12 (Click example_rect 50 300))
     = computeResults (example_calibrated\<lparr>monthPts := replicate 12 (50, 300)\<rparr>)"
proof -
  let ?s = "example_calibrated\<lparr>monthPts := replicate 11 (50, 300)\<rparr>"
  have e: "example_calibrated = example_calibrated\<lparr>monthPts := replicate 0 (50, 300)\<rparr>"
    by (simp add: example_calibrated_def example_two_points_def example_page_def
        initial_state_def)
  have "replicate 12 (Click example_rect 50 300)
          = replicate 11 (Click example_rect 50 300) @ [Click example_rect 50 300]"
    by (simp only: replicate_12)
  then have "run example_calibrated (replicate 12 (Click example_rect 50 300))
          = step (run example_calibrated (replicate 11 (Click example_rect 50 300)))
                 (Click example_rect 50 300)"
    by (simp add: run_def)
  also have "run example_calibrated (replicate 11 (Click example_rect 50 300)) = ?s"
    using example_clicks[of 0 11] e by simp
  also have "step ?s (Click example_rect 50 300) = addPoint ?s (50, 300)"
    by (simp add: example_click click_ignored_def example_calibrated_def
        example_two_points_def example_page_def initial_state_def)
  also have "\<dots> = computeResults (example_calibrated\<lparr>monthPts := replicate 12 (50, 300)\<rparr>)"
    by (simp add: addPoint_def Let_def example_calibrated_def example_two_points_def
        replicate_12)
  finally show ?thesis .
qed

lemma example_total:
  "annualLabel (computeResults (example_calibrated\<lparr>monthPts := replicate 12 (50, 300)\<rparr>))
     = Some (Some 6000)"
proof -
  let ?s = "example_calibrated\<lparr>monthPts := replicate 12 (50, 300)\<rparr>"
  have h: "affine ?s = Some example_closure" "12 \<le> length (monthPts ?s)"
    "startIdx ?s = Some 0" "mode ?s = Some ''Total''"
    "monthPts ?s = replicate 12 (50, 300)"
    by (simp_all add: example_calibrated_def)
  have add: "js_add 0 500 = 500" "js_add 500 500 = 1000" "js_add 1000 500 = 1500"
    "js_add 1500 500 = 2000" "js_add 2000 500 = 2500" "js_add 2500 500 = 3000"
    "js_add 3000 500 = 3500" "js_add 3500 500 = 4000" "js_add 4000 500 = 4500"
    "js_add 4500 500 = 5000" "js_add 5000 500 = 5500" "js_add 5500 500 = 6000"
    by (simp_all add: js_add_def fl_numeral)
  show ?thesis
    unfolding computeResults_unfold(2)[OF h(1,2)]
    by (simp add: upt_12 result_row_in_range[OF h(3)] h(4,5) Let_def example_affine_300
        nan_add_def add)
qed

theorem selections_captured_witness:
  "setCalib_onclick example_two_points = Inr example_calibrated \<and>
   SetCalib \<notin> set (ModeSelect ''Daily average'' # StartSelect ''Mar'' #
                      replicate 12 (Click example_rect 50 300)) \<and>
   mode (run example_calibrated
           (ModeSelect ''Daily average'' # StartSelect ''Mar'' #
            replicate 12 (Click example_rect 50 300))) = Some ''Total'' \<and>
   startIdx (run example_calibrated
           (ModeSelect ''Daily average'' # StartSelect ''Mar'' #
            replicate 12 (Click example_rect 50 300))) = Some 0 \<and>
   annualLabel (run example_calibrated
           (ModeSelect ''Daily average'' # StartSelect ''Mar'' #
            replicate 12 (Click example_rect 50 300))) = Some (Some 6000)"
proof -
  let ?evs = "ModeSelect ''Daily average'' # StartSelect ''Mar'' #
              replicate 12 (Click example_rect 50 300)"
  have n: "SetCalib \<notin> set ?evs" by simp
  have f: "filter (\<lambda>e. \<not> is_select e) ?evs = replicate 12 (Click example_rect 50 300)"
    by simp
  have m: "mode example_calibrated = Some ''Total''" "startIdx example_calibrated = Some 0"
    by (simp_all add: example_calibrated_def)
  from selections_captured[OF example_setCalib n]
  have "mode (run example_calibrated ?evs) = mode example_calibrated"
    "startIdx (run example_calibrated ?evs) = startIdx example_calibrated"
    "annualLabel (run example_calibrated ?evs)
       = annualLabel (run example_calibrated (filter (\<lambda>e. \<not> is_select e) ?evs))"
    by blast+
  then have "mode (run example_calibrated ?evs) = Some ''Total''"
    "startIdx (run example_calibrated ?evs) = Some 0"
    "annualLabel (run example_calibrated ?evs) = Some (Some 6000)"
    by (simp_all only: f m example_twelve_clicks example_total)
  with example_setCalib n show ?thesis by (simp only: simp_thms)
qed

section \<open>The click listener\<close>

lemma canvas_click_gate:
  "click_ignored s \<Longrightarrow> canvas_click s rect clientX clientY = s"
  "\<not> click_ignored s \<Longrightarrow>
     canvas_click s rect clientX clientY =
       addPoint s (p_cx (getCanvasPointFromClient s rect clientX clientY),
                   p_cy (getCanvasPointFromClient s rect clientX clientY))"
  by (simp_all add: canvas_click_def Let_def)

lemma example_point:
  assumes "canvas_width s = 800" and "canvas_height s = 600"
  shows "p_cx (getCanvasPointFromClient s example_rect 50 300) = 50"
    and "p_cy (getCanvasPointFromClient s example_rect 50 300) = 300"
    and "p_cx (getCanvasPointFromClient s example_rect 100 500) = 100"
    and "p_cy (getCanvasPointFromClient s example_rect 100 500) = 500"
proof -
  have a: "js_div 800 800 = 1" "js_div 600 600 = 1"
    by (simp_all add: js_div_def fl_1)
  have b: "js_sub 50 0 = 50" "js_sub 300 0 = 300" "js_sub 100 0 = 100" "js_sub 500 0 = 500"
    by (simp_all add: js_sub_def fl_numeral)
  have c: "js_mul 50 1 = 50" "js_mul 300 1 = 300" "js_mul 100 1 = 100" "js_mul 500 1 = 500"
    by (simp_all add: js_mul_def fl_numeral)
  show "p_cx (getCanvasPointFromClient s example_rect 50 300) = 50"
    "p_cy (getCanvasPointFromClient s example_rect 50 300) = 300"
    "p_cx (getCanvasPointFromClient s example_rect 100 500) = 100"
    "p_cy (getCanvasPointFromClient s example_rect 100 500) = 500"
    using assms by (simp_all add: example_click_point a b c)
qed

lemma example_canvas:
  "canvas_width example_page = 800" "canvas_height example_page = 600"
  "canvas_width example_two_points = 800" "canvas_height example_two_points = 600"
  "canvas_width example_calibrated = 800" "canvas_height example_calibrated = 600"
  "canvas_width example_eleven = 800" "canvas_height example_eleven = 600"
  "canvas_width example_twelve = 800" "canvas_height example_twelve = 600"
  by (simp_all add: example_twelve_def example_eleven_def example_calibrated_def
      example_two_points_def example_page_def initial_state_def)

lemma example_not_ignored:
  "\<not> click_ignored example_page" "\<not> click_ignored example_two_points"
  "\<not> click_ignored example_calibrated" "\<not> click_ignored example_eleven"
  "\<not> click_ignored example_twelve" "click_ignored example_crop_calibrated"
  by (simp_all add: click_ignored_def example_crop_calibrated_def example_twelve_def
      example_eleven_def example_calibrated_def example_two_points_def example_page_def
      initial_state_def)

lemma example_crop_calibrated_reached:
  "run example_page [Click example_rect 100 500, Click example_rect 120 100, SetCalib,
                     CropToggle]
     = example_crop_calibrated"
proof -
  have "run example_page [Click example_rect 100 500, Click example_rect 120 100, SetCalib,
                          CropToggle]
        = cropToggle_onclick
            (run example_page [Click example_rect 100 500, Click example_rect 120 100, SetCalib])"
    by (simp add: run_def)
  also have "\<dots> = cropToggle_onclick example_calibrated" by (simp only: example_reached)
  also have "\<dots> = example_crop_calibrated"
    by (simp add: cropToggle_onclick_def example_crop_calibrated_def example_calibrated_def
        example_two_points_def example_page_def initial_state_def)
  finally show ?thesis .
qed

text \<open>
  C7, as amended: the listener ignores a click, changing nothing, while the crop mode
  is on and a crop is being drawn or the crop rectangle is shown. A click that is not
  ignored stores its point: with fewer than two calibration points it is appended to
  them; with two already there the calibration points stay as they are, and nothing at
  all happens when no map is stored or twelve month points exist; otherwise the point
  is appended to the month points, and \<open>computeResults\<close> runs exactly when that point
  is the twelfth. So every click keeps at most two calibration points and at most
  twelve month points.
\<close>

theorem canvas_click_limits:
  "(let pt = (p_cx (getCanvasPointFromClient s rect clientX clientY),
              p_cy (getCanvasPointFromClient s rect clientX clientY));
        s' = canvas_click s rect clientX clientY
    in (click_ignored s \<longrightarrow> s' = s) \<and>
       (\<not> click_ignored s \<longrightarrow>
          (length (calib s) < 2 \<longrightarrow> s' = s\<lparr>calib := calib s @ [pt]\<rparr>) \<and>
          (2 \<le> length (calib s) \<longrightarrow> calib s' = calib s) \<and>
          (2 \<le> length (calib s) \<and> (affine s = None \<or> 12 \<le> length (monthPts s)) \<longrightarrow>
             s' = s) \<and>
          (2 \<le> length (calib s) \<and> affine s \<noteq> None \<and> length (monthPts s) < 12 \<longrightarrow>
             monthPts s' = monthPts s @ [pt] \<and>
             (length (monthPts s) = 11 \<longrightarrow>
                s' = computeResults (s\<lparr>monthPts := monthPts s @ [pt]\<rparr>) \<and>
                resultsTable s' \<noteq> None) \<and>
             (length (monthPts s) \<noteq> 11 \<longrightarrow> s' = s\<lparr>monthPts := monthPts s @ [pt]\<rparr>))) \<and>
       (length (calib s) \<le> 2 \<and> length (monthPts s) \<le> 12 \<longrightarrow>
          length (calib s') \<le> 2 \<and> length (monthPts s') \<le> 12))"
proof -
  let ?pt = "(p_cx (getCanvasPointFromClient s rect clientX clientY),
              p_cy (getCanvasPointFromClient s rect clientX clientY))"
  let ?s' = "canvas_click s rect clientX clientY"
  have gate: "click_ignored s \<longrightarrow> ?s' = s"
    by (simp add: canvas_click_gate)
  have body: "\<not> click_ignored s \<longrightarrow>
          (length (calib s) < 2 \<longrightarrow> ?s' = s\<lparr>calib := calib s @ [?pt]\<rparr>) \<and>
          (2 \<le> length (calib s) \<longrightarrow> calib ?s' = calib s) \<and>
          (2 \<le> length (calib s) \<and> (affine s = None \<or> 12 \<le> length (monthPts s)) \<longrightarrow>
             ?s' = s) \<and>
          (2 \<le> length (calib s) \<and> affine s \<noteq> None \<and> length (monthPts s) < 12 \<longrightarrow>
             monthPts ?s' = monthPts s @ [?pt] \<and>
             (length (monthPts s) = 11 \<longrightarrow>
                ?s' = computeResults (s\<lparr>monthPts := monthPts s @ [?pt]\<rparr>) \<and>
                resultsTable ?s' \<noteq> None) \<and>
             (length (monthPts s) \<noteq> 11 \<longrightarrow> ?s' = s\<lparr>monthPts := monthPts s @ [?pt]\<rparr>))"
  proof
    assume "\<not> click_ignored s"
    then have "?s' = addPoint s ?pt" by (rule canvas_click_gate)
    then show "(length (calib s) < 2 \<longrightarrow> ?s' = s\<lparr>calib := calib s @ [?pt]\<rparr>) \<and>
          (2 \<le> length (calib s) \<longrightarrow> calib ?s' = calib s) \<and>
          (2 \<le> length (calib s) \<and> (affine s = None \<or> 12 \<le> length (monthPts s)) \<longrightarrow>
             ?s' = s) \<and>
          (2 \<le> length (calib s) \<and> affine s \<noteq> None \<and> length (monthPts s) < 12 \<longrightarrow>
             monthPts ?s' = monthPts s @ [?pt] \<and>
             (length (monthPts s) = 11 \<longrightarrow>
                ?s' = computeResults (s\<lparr>monthPts := monthPts s @ [?pt]\<rparr>) \<and>
                resultsTable ?s' \<noteq> None) \<and>
             (length (monthPts s) \<noteq> 11 \<longrightarrow> ?s' = s\<lparr>monthPts := monthPts s @ [?pt]\<rparr>))"
      using addPoint_cases[of s ?pt] by (simp only:) blast
  qed
  have bounds: "length (calib s) \<le> 2 \<and> length (monthPts s) \<le> 12 \<longrightarrow>
          length (calib ?s') \<le> 2 \<and> length (monthPts ?s') \<le> 12"
    using addPoint_lengths[of s] by (simp add: canvas_click_def Let_def)
  show ?thesis unfolding Let_def using gate body bounds by blast
qed


theorem canvas_click_limits_witness:
  "click_ignored example_crop_calibrated \<and>
   canvas_click example_crop_calibrated example_rect 50 300 = example_crop_calibrated \<and>
   \<not> click_ignored example_page \<and>
   canvas_click example_page example_rect 100 500 = example_page\<lparr>calib := [(100, 500)]\<rparr> \<and>
   \<not> click_ignored example_two_points \<and>
   canvas_click example_two_points example_rect 50 300 = example_two_points \<and>
   \<not> click_ignored example_calibrated \<and>
   canvas_click example_calibrated example_rect 50 300
     = example_calibrated\<lparr>monthPts := [(50, 300)]\<rparr> \<and>
   \<not> click_ignored example_twelve \<and>
   canvas_click example_twelve example_rect 50 300 = example_twelve \<and>
   \<not> click_ignored example_eleven \<and>
   calib (canvas_click example_eleven example_rect 50 300) = calib example_eleven \<and>
   monthPts (canvas_click example_eleven example_rect 50 300)
     = monthPts example_eleven @ [(50, 300)] \<and>
   canvas_click example_eleven example_rect 50 300 =
     computeResults (example_eleven\<lparr>monthPts := monthPts example_eleven @ [(50, 300)]\<rparr>) \<and>
   resultsTable (canvas_click example_eleven example_rect 50 300) \<noteq> None \<and>
   length (calib (canvas_click example_eleven example_rect 50 300)) \<le> 2 \<and>
   length (monthPts (canvas_click example_eleven example_rect 50 300)) \<le> 12"
proof -
  note n = example_not_ignored
  have h: "2 \<le> length (calib example_eleven)" "affine example_eleven \<noteq> None"
    "length (monthPts example_eleven) = 11" "length (monthPts example_eleven) < 12"
    "length (calib example_eleven) \<le> 2" "length (monthPts example_eleven) \<le> 12"
    by (simp_all add: example_eleven_facts)
  have p: "length (calib example_page) < 2" "calib example_page = []"
    by (simp_all add: example_page_def initial_state_def)
  have t: "2 \<le> length (calib example_two_points)" "affine example_two_points = None"
    by (simp_all add: example_two_points_def example_page_def initial_state_def)
  have c: "2 \<le> length (calib example_calibrated)" "affine example_calibrated \<noteq> None"
    "length (monthPts example_calibrated) < 12" "length (monthPts example_calibrated) \<noteq> 11"
    "monthPts example_calibrated = []"
    by (simp_all add: example_calibrated_def example_two_points_def example_page_def
        initial_state_def)
  have w: "2 \<le> length (calib example_twelve)" "12 \<le> length (monthPts example_twelve)"
    by (simp_all add: example_twelve_def example_calibrated_def example_two_points_def)
  from canvas_click_limits[of example_crop_calibrated example_rect 50 300] n(6)
  have 0: "canvas_click example_crop_calibrated example_rect 50 300 = example_crop_calibrated"
    unfolding Let_def by blast
  from canvas_click_limits[of example_page example_rect 100 500] n(1) p
  have 1: "canvas_click example_page example_rect 100 500
             = example_page\<lparr>calib := [(100, 500)]\<rparr>"
    unfolding Let_def by (simp add: example_point example_canvas)
  from canvas_click_limits[of example_two_points example_rect 50 300] n(2) t
  have 2: "canvas_click example_two_points example_rect 50 300 = example_two_points"
    unfolding Let_def by blast
  from canvas_click_limits[of example_calibrated example_rect 50 300] n(3) c
  have 3: "canvas_click example_calibrated example_rect 50 300
             = example_calibrated\<lparr>monthPts := [(50, 300)]\<rparr>"
    unfolding Let_def by (simp add: example_point example_canvas)
  from canvas_click_limits[of example_twelve example_rect 50 300] n(5) w
  have 4: "canvas_click example_twelve example_rect 50 300 = example_twelve"
    unfolding Let_def by blast
  have pt: "(p_cx (getCanvasPointFromClient example_eleven example_rect 50 300),
             p_cy (getCanvasPointFromClient example_eleven example_rect 50 300)) = (50, 300)"
    by (simp add: example_point example_canvas)
  from canvas_click_limits[of example_eleven example_rect 50 300] n(4) h
  have 5: "calib (canvas_click example_eleven example_rect 50 300) = calib example_eleven"
    "monthPts (canvas_click example_eleven example_rect 50 300)
       = monthPts example_eleven @ [(50, 300)]"
    "canvas_click example_eleven example_rect 50 300 =
       computeResults (example_eleven\<lparr>monthPts := monthPts example_eleven @ [(50, 300)]\<rparr>)"
    "resultsTable (canvas_click example_eleven example_rect 50 300) \<noteq> None"
    "length (calib (canvas_click example_eleven example_rect 50 300)) \<le> 2"
    "length (monthPts (canvas_click example_eleven example_rect 50 300)) \<le> 12"
    unfolding Let_def pt by blast+
  from n 0 1 2 3 4 5 show ?thesis by (simp only: simp_thms)
qed

text \<open>
  On the calibrated page with the crop mode switched on, a map is stored and no month
  point exists, yet a click appends nothing: line 161 returns.
\<close>

theorem canvas_click_limits_counterexample:
  "run example_page [Click example_rect 100 500, Click example_rect 120 100, SetCalib,
                     CropToggle]
     = example_crop_calibrated \<and>
   length (calib example_crop_calibrated) = 2 \<and>
   affine example_crop_calibrated = Some example_closure \<and>
   length (monthPts example_crop_calibrated) < 12 \<and>
   canvas_click example_crop_calibrated example_rect 50 300 = example_crop_calibrated \<and>
   monthPts (canvas_click example_crop_calibrated example_rect 50 300)
     \<noteq> monthPts example_crop_calibrated @ [(50, 300)]"
proof -
  have c: "canvas_click example_crop_calibrated example_rect 50 300 = example_crop_calibrated"
    using example_not_ignored(6) by (rule canvas_click_gate)
  have f: "length (calib example_crop_calibrated) = 2"
    "affine example_crop_calibrated = Some example_closure"
    "length (monthPts example_crop_calibrated) < 12"
    by (simp_all add: example_crop_calibrated_def example_calibrated_def
        example_two_points_def example_page_def initial_state_def)
  have "monthPts (canvas_click example_crop_calibrated example_rect 50 300)
          \<noteq> monthPts example_crop_calibrated @ [(50, 300)]"
    by (simp only: c) simp
  with example_crop_calibrated_reached f c show ?thesis by (simp only: simp_thms)
qed

end
